theory Spec2Isabelle
  imports Complex_Main
begin

section \<open>JavaScript values used by the configuration loader\<close>

text \<open>
  A string is a list of code units. \<open>String.prototype.trim\<close> removes the
  ECMAScript white space and line terminator code units from both ends; the
  ones below are those up to code unit 0xFF (tab, line feed, vertical tab,
  form feed, carriage return, space, no-break space).
\<close>

definition js_whitespace :: "char \<Rightarrow> bool" where
  "js_whitespace c =
     (c = CHR 0x09 \<or> c = CHR 0x0A \<or> c = CHR 0x0B \<or> c = CHR 0x0C \<or>
      c = CHR 0x0D \<or> c = CHR 0x20 \<or> c = CHR 0xA0)"

definition trim :: "string \<Rightarrow> string" where
  "trim s = rev (dropWhile js_whitespace (rev (dropWhile js_whitespace s)))"

text \<open>
  \<open>s.split(sep)\<close> for a one-character separator: the pieces between the
  separators, in order; the empty string gives one empty piece.
\<close>

fun split :: "char \<Rightarrow> string \<Rightarrow> string list" where
  "split sep [] = [[]]"
| "split sep (c # cs) =
     (if c = sep then [] # split sep cs
      else (case split sep cs of
              [] \<Rightarrow> [[c]]
            | p # ps \<Rightarrow> (c # p) # ps))"

text \<open>\<open>Array.prototype.join\<close>, used to state what \<open>split\<close> computes.\<close>

fun join :: "char \<Rightarrow> string list \<Rightarrow> string" where
  "join sep [] = []"
| "join sep [p] = p"
| "join sep (p # q # ps) = p @ sep # join sep (q # ps)"

section \<open>Number coercion\<close>

text \<open>
  \<open>Number(v)\<close> on a string follows the StringNumericLiteral grammar of
  ECMAScript: white space is trimmed; the empty string is 0; a decimal literal
  (optional sign, digits, fraction, exponent, or \<open>Infinity\<close>) or an unsigned
  binary, octal or hexadecimal integer literal is its value; every other
  string is \<open>NaN\<close>. A finite value is kept as the mathematical value of the
  literal (the rounding to a double is not part of this development).
\<close>

datatype js_number = NaN | PosInfinity | NegInfinity | Finite rat

definition digit_of :: "char \<Rightarrow> nat option" where
  "digit_of c =
     (let n = (of_char c :: nat) in
      if 48 \<le> n \<and> n \<le> 57 then Some (n - 48)
      else if 97 \<le> n \<and> n \<le> 102 then Some (n - 87)
      else if 65 \<le> n \<and> n \<le> 70 then Some (n - 55)
      else None)"

definition is_digit :: "nat \<Rightarrow> char \<Rightarrow> bool" where
  "is_digit b c = (case digit_of c of None \<Rightarrow> False | Some d \<Rightarrow> d < b)"

definition digits_val :: "nat \<Rightarrow> string \<Rightarrow> nat" where
  "digits_val b s = foldl (\<lambda>acc c. acc * b + (case digit_of c of None \<Rightarrow> 0 | Some d \<Rightarrow> d)) 0 s"

definition Digits :: "nat \<Rightarrow> string \<Rightarrow> bool" where
  "Digits b s = (s \<noteq> [] \<and> list_all (is_digit b) s)"

definition SignedInteger :: "string \<Rightarrow> int option" where
  "SignedInteger s =
     (case s of
        [] \<Rightarrow> None
      | c # cs \<Rightarrow>
          if c = CHR ''+'' then (if Digits 10 cs then Some (int (digits_val 10 cs)) else None)
          else if c = CHR ''-'' then (if Digits 10 cs then Some (- int (digits_val 10 cs)) else None)
          else if Digits 10 s then Some (int (digits_val 10 s)) else None)"

definition ExponentPart_opt :: "string \<Rightarrow> int option" where
  "ExponentPart_opt s =
     (case s of
        [] \<Rightarrow> Some 0
      | c # cs \<Rightarrow> if c = CHR ''e'' \<or> c = CHR ''E'' then SignedInteger cs else None)"

definition Mantissa :: "string \<Rightarrow> rat option" where
  "Mantissa s =
     (let ip = takeWhile (\<lambda>c. c \<noteq> CHR ''.'') s;
          rest = dropWhile (\<lambda>c. c \<noteq> CHR ''.'') s
      in case rest of
           [] \<Rightarrow> if Digits 10 ip then Some (of_nat (digits_val 10 ip)) else None
         | _ # fp \<Rightarrow>
             if list_all (is_digit 10) ip \<and> list_all (is_digit 10) fp \<and> (ip \<noteq> [] \<or> fp \<noteq> [])
             then Some (of_nat (digits_val 10 ip) + of_nat (digits_val 10 fp) / 10 ^ length fp)
             else None)"

definition scale10 :: "rat \<Rightarrow> int \<Rightarrow> rat" where
  "scale10 q k = (if 0 \<le> k then q * 10 ^ nat k else q / 10 ^ nat (- k))"

definition is_exponent_char :: "char \<Rightarrow> bool" where
  "is_exponent_char c = (c = CHR ''e'' \<or> c = CHR ''E'')"

definition StrUnsignedDecimalLiteral :: "string \<Rightarrow> js_number option" where
  "StrUnsignedDecimalLiteral s =
     (if s = ''Infinity'' then Some PosInfinity
      else
        (case Mantissa (takeWhile (\<lambda>c. \<not> is_exponent_char c) s) of
           None \<Rightarrow> None
         | Some q \<Rightarrow>
             (case ExponentPart_opt (dropWhile (\<lambda>c. \<not> is_exponent_char c) s) of
                None \<Rightarrow> None
              | Some k \<Rightarrow> Some (Finite (scale10 q k)))))"

definition negate :: "js_number \<Rightarrow> js_number" where
  "negate v = (case v of NaN \<Rightarrow> NaN | PosInfinity \<Rightarrow> NegInfinity
               | NegInfinity \<Rightarrow> PosInfinity | Finite q \<Rightarrow> Finite (- q))"

definition StrDecimalLiteral :: "string \<Rightarrow> js_number option" where
  "StrDecimalLiteral s =
     (case s of
        [] \<Rightarrow> None
      | c # cs \<Rightarrow>
          if c = CHR ''+'' then StrUnsignedDecimalLiteral cs
          else if c = CHR ''-'' then map_option negate (StrUnsignedDecimalLiteral cs)
          else StrUnsignedDecimalLiteral s)"

definition NonDecimalIntegerLiteral :: "string \<Rightarrow> js_number option" where
  "NonDecimalIntegerLiteral s =
     (case s of
        z # x # ds \<Rightarrow>
          if z \<noteq> CHR ''0'' then None
          else
            (let b = (if x = CHR ''b'' \<or> x = CHR ''B'' then 2
                      else if x = CHR ''o'' \<or> x = CHR ''O'' then 8
                      else if x = CHR ''x'' \<or> x = CHR ''X'' then 16 else (0::nat))
             in if b \<noteq> 0 \<and> Digits b ds then Some (Finite (of_nat (digits_val b ds))) else None)
      | _ \<Rightarrow> None)"

definition StrNumericLiteral :: "string \<Rightarrow> js_number option" where
  "StrNumericLiteral s =
     (case NonDecimalIntegerLiteral s of
        Some v \<Rightarrow> Some v
      | None \<Rightarrow> StrDecimalLiteral s)"

definition StringToNumber :: "string \<Rightarrow> js_number" where
  "StringToNumber s =
     (let t = trim s in
      if t = [] then Finite 0
      else (case StrNumericLiteral t of None \<Rightarrow> NaN | Some v \<Rightarrow> v))"

section \<open>src/config.js\<close>

text \<open>
  \<^verbatim>\<open>
  function parseOrigins(val) {
    if (!val) return [];
    return val.split(",").map(s => s.trim()).filter(Boolean);
  }
  \<close>
  \<open>val\<close> is \<open>process.env.CORS_ORIGINS\<close>: \<open>None\<close> is \<open>undefined\<close>.
  \<open>!val\<close> holds for \<open>undefined\<close> and for the empty string;
  \<open>filter(Boolean)\<close> keeps the non-empty strings.
\<close>

definition parseOrigins :: "string option \<Rightarrow> string list" where
  "parseOrigins val =
     (case val of
        None \<Rightarrow> []
      | Some s \<Rightarrow>
          if s = [] then []
          else filter (\<lambda>e. e \<noteq> []) (map trim (split (CHR '','') s)))"

text \<open>
  The allow-list as the specification words it, stated without the functions
  of the source. The entries of a comma-separated string are the pieces
  between the commas: the one non-empty list of comma-free strings that
  joins back to the string. An entry is trimmed to the string that is left
  when white space, and only white space, is taken off both ends. The
  allow-list of an unset variable is empty; otherwise it is the trimmed
  entries, in order, without the empty ones.
\<close>

definition comma_pieces :: "string \<Rightarrow> string list \<Rightarrow> bool" where
  "comma_pieces s ps =
     (ps \<noteq> [] \<and> (\<forall>p \<in> set ps. CHR '','' \<notin> set p) \<and> join (CHR '','') ps = s)"

definition trimmed :: "string \<Rightarrow> string \<Rightarrow> bool" where
  "trimmed p t =
     (\<exists>l r. p = l @ t @ r \<and> list_all js_whitespace l \<and> list_all js_whitespace r \<and>
            (t \<noteq> [] \<longrightarrow> \<not> js_whitespace (hd t) \<and> \<not> js_whitespace (last t)))"

definition spec_allowedOrigins :: "string option \<Rightarrow> string list \<Rightarrow> bool" where
  "spec_allowedOrigins val out =
     (case val of
        None \<Rightarrow> out = []
      | Some s \<Rightarrow>
          (\<exists>ps ts. comma_pieces s ps \<and> list_all2 trimmed ps ts \<and>
                   out = filter (\<lambda>t. t \<noteq> []) ts))"

text \<open>
  \<^verbatim>\<open>
  module.exports = {
    env: process.env.NODE_ENV || "development",
    port: Number(process.env.PORT || 3000),
    corsOrigins: parseOrigins(process.env.CORS_ORIGINS),
    trustProxy: process.env.TRUST_PROXY === "1",
    baseUrl: process.env.BASE_URL || null
  };
  \<close>
  \<open>process.env\<close>, after \<open>dotenv\<close> has filled it, maps a variable name
  to a string or to \<open>undefined\<close> (\<open>None\<close>). \<open>a || b\<close> is \<open>b\<close> when \<open>a\<close> is \<open>undefined\<close> or the
  empty string. \<open>Number(3000)\<close> is 3000.
\<close>

type_synonym environment = "string \<rightharpoonup> string"

record config =
  env :: string
  port :: js_number
  corsOrigins :: "string list"
  trustProxy :: bool
  baseUrl :: "string option"

definition load_config :: "environment \<Rightarrow> config" where
  "load_config e =
     \<lparr> env = (case e ''NODE_ENV'' of
                None \<Rightarrow> ''development''
              | Some s \<Rightarrow> if s = [] then ''development'' else s),
       port = (case e ''PORT'' of
                 None \<Rightarrow> Finite 3000
               | Some s \<Rightarrow> if s = [] then Finite 3000 else StringToNumber s),
       corsOrigins = parseOrigins (e ''CORS_ORIGINS''),
       trustProxy = (e ''TRUST_PROXY'' = Some ''1''),
       baseUrl = (case e ''BASE_URL'' of
                    None \<Rightarrow> None
                  | Some s \<Rightarrow> if s = [] then None else Some s) \<rparr>"

section \<open>Requests, responses and errors\<close>

text \<open>
  A request as the middleware chain of the server sees it: the method and the
  path name of the URL, the headers under their lower-case names
  (\<open>req.headers\<close>), the client address Express computes (\<open>req.ip\<close>, which
  honours the trust-proxy setting), and the error the body parsers
  \<open>express.json\<close> and \<open>express.urlencoded\<close> (limit 1mb) raise for this
  request, if any.
\<close>

record js_error =
  err_status :: "nat option"
  err_message :: string

record request =
  req_method :: string
  req_path :: string
  req_headers :: "string \<rightharpoonup> string"
  req_ip :: string
  req_body_fault :: "js_error option"

datatype json =
    JBool bool
  | JString string
  | JIsoTime nat
  | JArray "json list"
  | JObject "(string \<times> json) list"

text \<open>
  \<open>JIsoTime t\<close> is the string \<open>new Date(t).toISOString()\<close>. A response is
  what the answering callback hands to \<open>res.status\<close>, \<open>res.send\<close> and
  \<open>res.json\<close>, with the rate-limit headers set on the way. (For a HEAD
  request the body is computed in the same way and then not transmitted.)
\<close>

datatype payload = Empty | Text string | Json json

record response =
  res_status :: nat
  res_body :: payload
  res_headers :: "(string \<times> nat) list"

text \<open>
  The callbacks of the server file that can answer a request. \<open>handled_by\<close>
  is \<open>None\<close> when a library middleware answered.
\<close>

datatype handler =
  LivezHandler | ReadyzHandler | HelloHandler | RootHandler | NotFoundHandler | ErrorHandler

record outcome =
  response :: response
  handled_by :: "handler option"

definition route_handlers :: "handler set" where
  "route_handlers = {LivezHandler, ReadyzHandler, HelloHandler, RootHandler}"

text \<open>
  What goes over the wire: \<open>res.send\<close> (and \<open>res.json\<close>, which calls it)
  ends the response without the body when the request method is HEAD.
\<close>

definition transmitted_body :: "request \<Rightarrow> response \<Rightarrow> payload" where
  "transmitted_body req r = (if req_method req = ''HEAD'' then Empty else res_body r)"

text \<open>
  What a middleware does with a request: hand it on (\<open>next()\<close>), hand an
  error on (\<open>next(err)\<close>), or answer it.
\<close>

datatype stage_result = Next | Fail js_error | Done response

section \<open>Express routing\<close>

text \<open>
  Express matches paths case-insensitively and, for a route, with an optional
  trailing slash (the settings \<open>case sensitive routing\<close> and
  \<open>strict routing\<close> are off by default). A route registered with
  \<open>app.get\<close> also serves HEAD. A middleware mounted with
  \<open>app.use(prefix, ...)\<close> runs for the prefix itself and for every path that
  continues it at a slash.
\<close>

definition lower_ascii :: "char \<Rightarrow> char" where
  "lower_ascii c =
     (case map_of (zip ''ABCDEFGHIJKLMNOPQRSTUVWXYZ'' ''abcdefghijklmnopqrstuvwxyz'') c of
        None \<Rightarrow> c
      | Some l \<Rightarrow> l)"

definition toLowerCase :: "string \<Rightarrow> string" where
  "toLowerCase s = map lower_ascii s"

definition path_match :: "string \<Rightarrow> string \<Rightarrow> bool" where
  "path_match pat p =
     (let q = toLowerCase p in
      if pat \<noteq> [] \<and> last pat = CHR ''/'' then q = pat \<or> q = butlast pat
      else q = pat \<or> q = pat @ ''/'')"

definition mount_match :: "string \<Rightarrow> string \<Rightarrow> bool" where
  "mount_match prefix p =
     (let q = toLowerCase p in
      take (length prefix) q = prefix \<and>
      (case drop (length prefix) q of [] \<Rightarrow> True | c # _ \<Rightarrow> c = CHR ''/''))"

definition get_route :: "string \<Rightarrow> request \<Rightarrow> bool" where
  "get_route pat req =
     (path_match pat (req_path req) \<and>
      (toLowerCase (req_method req) = ''get'' \<or> toLowerCase (req_method req) = ''head''))"

section \<open>The server file: middleware chain\<close>

subsection \<open>Request identifier\<close>






subsection \<open>CORS\<close>

text \<open>
  \<^verbatim>\<open>
  const corsOptions = corsOrigins.length
    ? {
        origin: (origin, cb) => {
          if (!origin || corsOrigins.includes(origin)) return cb(null, true);
          return cb(new Error("Not allowed by CORS"));
        },
        credentials: true
      }
    : {};
  app.use(cors(corsOptions));
  \<close>
  The callback's two results are \<open>cb(null, true)\<close> (\<open>Inr True\<close>) and
  \<open>cb(err)\<close> (\<open>Inl err\<close>); a plain \<open>Error\<close> has no \<open>status\<close>.
\<close>

record cors_options =
  origin :: "(string option \<Rightarrow> js_error + bool) option"
  credentials :: "bool option"

definition origin_callback :: "string list \<Rightarrow> string option \<Rightarrow> js_error + bool" where
  "origin_callback allowed orig =
     (case orig of
        None \<Rightarrow> Inr True
      | Some v \<Rightarrow>
          if v = [] \<or> v \<in> set allowed then Inr True
          else Inl \<lparr> err_status = None, err_message = ''Not allowed by CORS'' \<rparr>)"

definition corsOptions :: "config \<Rightarrow> cors_options" where
  "corsOptions cfg =
     (if length (corsOrigins cfg) \<noteq> 0
      then \<lparr> origin = Some (origin_callback (corsOrigins cfg)), credentials = Some True \<rparr>
      else \<lparr> origin = None, credentials = None \<rparr>)"

text \<open>
  The \<open>cors\<close> package: it hands the request's \<open>Origin\<close> header to the
  \<open>origin\<close> option when that is a function and passes the callback's error
  on; without the option every origin is accepted. An accepted OPTIONS
  request is answered as a preflight with status 204 and no body
  (\<open>preflightContinue\<close> is off by default); any other accepted request goes
  on to the next middleware.
\<close>

definition preflight :: response where
  "preflight = \<lparr> res_status = 204, res_body = Empty, res_headers = [] \<rparr>"

definition cors_accept :: "request \<Rightarrow> stage_result" where
  "cors_accept req = (if toLowerCase (req_method req) = ''options'' then Done preflight else Next)"

definition cors :: "cors_options \<Rightarrow> request \<Rightarrow> stage_result" where
  "cors opts req =
     (case origin opts of
        None \<Rightarrow> cors_accept req
      | Some f \<Rightarrow>
          (case f (req_headers req ''origin'') of
             Inl e \<Rightarrow> Fail e
           | Inr ok \<Rightarrow> if ok then cors_accept req else Next))"

subsection \<open>Rate limiting\<close>

text \<open>
  \<^verbatim>\<open>
  const apiLimiter = rateLimit({
    windowMs: 10 * 60 * 1000, // 10 minutes
    max: 100,
    standardHeaders: true,
    legacyHeaders: false
  });
  app.use("/api", apiLimiter);
  \<close>
\<close>

record rate_limit_options =
  windowMs :: nat
  max_opt :: nat
  standardHeaders :: bool
  legacyHeaders :: bool

definition apiLimiter :: rate_limit_options where
  "apiLimiter =
     \<lparr> windowMs = 10 * 60 * 1000, max_opt = 100, standardHeaders = True, legacyHeaders = False \<rparr>"

record bucket =
  hits :: nat
  resetTime :: nat

type_synonym limiter_store = "string \<rightharpoonup> bucket"

text \<open>
  Modelled from the spec: the middleware that \<open>rateLimit\<close> of the package
  express-rate-limit returns is not under src/. One counter per client
  address over a fixed window of \<open>windowMs\<close> milliseconds, reset when the
  window has expired: \<open>current_bucket\<close> is the counter a request at
  \<open>now\<close> finds, a new one when there is none or the window is over.
\<close>

definition current_bucket :: "rate_limit_options \<Rightarrow> nat \<Rightarrow> limiter_store \<Rightarrow> string \<Rightarrow> bucket" where
  "current_bucket opts now store key =
     (case store key of
        None \<Rightarrow> \<lparr> hits = 0, resetTime = now + windowMs opts \<rparr>
      | Some b \<Rightarrow>
          if resetTime b \<le> now then \<lparr> hits = 0, resetTime = now + windowMs opts \<rparr> else b)"

text \<open>
  Modelled from the spec: the standard rate-limit headers (\<open>RateLimit-*\<close>)
  are set when \<open>standardHeaders\<close> is on and the legacy ones
  (\<open>X-RateLimit-*\<close>) when \<open>legacyHeaders\<close> is on.
\<close>

definition rate_headers :: "rate_limit_options \<Rightarrow> nat \<Rightarrow> bucket \<Rightarrow> (string \<times> nat) list" where
  "rate_headers opts now b =
     (if standardHeaders opts
      then [(''RateLimit-Limit'', max_opt opts),
            (''RateLimit-Remaining'', max_opt opts - hits b),
            (''RateLimit-Reset'', (resetTime b - now + 999) div 1000)]
      else []) @
     (if legacyHeaders opts
      then [(''X-RateLimit-Limit'', max_opt opts),
            (''X-RateLimit-Remaining'', max_opt opts - hits b),
            (''X-RateLimit-Reset'', (resetTime b + 999) div 1000)]
      else [])"

text \<open>
  Modelled from the spec: every request that reaches the middleware is
  counted; a request that takes the counter above \<open>max\<close> is answered
  with status 429 and goes no further. The result is whether the request may
  go on, the headers, and the updated store.
\<close>

definition rateLimit ::
  "rate_limit_options \<Rightarrow> nat \<Rightarrow> limiter_store \<Rightarrow> string \<Rightarrow> bool \<times> (string \<times> nat) list \<times> limiter_store"
where
  "rateLimit opts now store key =
     (let b = current_bucket opts now store key;
          b' = b \<lparr> hits := hits b + 1 \<rparr>
      in (hits b' \<le> max_opt opts, rate_headers opts now b', store(key \<mapsto> b')))"

text \<open>
  Modelled from the spec: the answer to a request over the cap, status 429
  (the text is the package's default message).
\<close>

definition too_many :: "(string \<times> nat) list \<Rightarrow> response" where
  "too_many hs =
     \<lparr> res_status = 429,
       res_body = Text ''Too many requests, please try again later.'',
       res_headers = hs \<rparr>"

subsection \<open>Routes\<close>

text \<open>
  \<^verbatim>\<open>
  app.get("/livez", (_req, res) => res.status(200).send("OK"));
  app.get("/readyz", (_req, res) => { res.status(200).send("READY"); });
  app.get("/api/hello", (_req, res) => {
    res.json({ ok: true, message: "Hello from Express (prod-ready)!",
               time: new Date().toISOString() });
  });
  app.get("/", (_req, res) => {
    res.json({ ok: true, service: "prod-express-server",
               endpoints: ["/api/hello", "/livez", "/readyz"], env,
               baseUrl: baseUrl || "set BASE_URL in env to print public URL" });
  });
  app.use((_req, res) => { res.status(404).json({ ok: false, error: "Not Found" }); });
  \<close>
  The layers are tried in the order of registration; the first whose path and
  method match answers. \<open>res.json\<close> without \<open>res.status\<close> answers 200.
\<close>

definition send :: "nat \<Rightarrow> payload \<Rightarrow> handler \<Rightarrow> outcome" where
  "send st b h =
     \<lparr> response = \<lparr> res_status = st, res_body = b, res_headers = [] \<rparr>, handled_by = Some h \<rparr>"

definition not_found_body :: json where
  "not_found_body = JObject [(''ok'', JBool False), (''error'', JString ''Not Found'')]"

definition routes :: "config \<Rightarrow> nat \<Rightarrow> request \<Rightarrow> outcome" where
  "routes cfg now req =
     (if get_route ''/livez'' req then send 200 (Text ''OK'') LivezHandler
      else if get_route ''/readyz'' req then send 200 (Text ''READY'') ReadyzHandler
      else if get_route ''/api/hello'' req then
        send 200
          (Json (JObject [(''ok'', JBool True),
                          (''message'', JString ''Hello from Express (prod-ready)!''),
                          (''time'', JIsoTime now)]))
          HelloHandler
      else if get_route ''/'' req then
        send 200
          (Json (JObject [(''ok'', JBool True),
                          (''service'', JString ''prod-express-server''),
                          (''endpoints'',
                             JArray [JString ''/api/hello'', JString ''/livez'', JString ''/readyz'']),
                          (''env'', JString (env cfg)),
                          (''baseUrl'',
                             JString (case baseUrl cfg of
                                        None \<Rightarrow> ''set BASE_URL in env to print public URL''
                                      | Some u \<Rightarrow> u))]))
          RootHandler
      else send 404 (Json not_found_body) NotFoundHandler)"

subsection \<open>Error handler\<close>

text \<open>
  \<^verbatim>\<open>
  app.use((err, req, res, _next) => {
    req.log?.error({ err }, "Unhandled error");
    const status = err.status || 500;
    res.status(status).json({
      ok: false,
      error: env === "production" ? "Internal Server Error" : err.message
    });
  });
  \<close>
  \<open>err.status || 500\<close> is 500 when \<open>err.status\<close> is \<open>undefined\<close> or 0.
\<close>

definition error_status :: "js_error \<Rightarrow> nat" where
  "error_status err =
     (case err_status err of None \<Rightarrow> 500 | Some st \<Rightarrow> if st = 0 then 500 else st)"

definition error_handler :: "config \<Rightarrow> js_error \<Rightarrow> outcome" where
  "error_handler cfg err =
     send (error_status err)
       (Json (JObject [(''ok'', JBool False),
                       (''error'',
                          JString (if env cfg = ''production'' then ''Internal Server Error''
                                   else err_message err))]))
       ErrorHandler"

subsection \<open>The chain\<close>

text \<open>
  The middleware in the order of the \<open>app.use\<close> calls. The logger, the
  security headers and the compression never answer and never fail. An error
  handed to \<open>next\<close> skips every later middleware and route and reaches the
  error handler. The headers the rate limiter set stay on the response of the
  route that answers.
\<close>

definition with_headers :: "(string \<times> nat) list \<Rightarrow> outcome \<Rightarrow> outcome" where
  "with_headers hs out =
     out \<lparr> response := (response out) \<lparr> res_headers := hs @ res_headers (response out) \<rparr> \<rparr>"

definition handle :: "config \<Rightarrow> nat \<Rightarrow> limiter_store \<Rightarrow> request \<Rightarrow> outcome \<times> limiter_store" where
  "handle cfg now store req =
     (case req_body_fault req of
        Some e \<Rightarrow> (error_handler cfg e, store)
      | None \<Rightarrow>
          (case cors (corsOptions cfg) req of
             Fail e \<Rightarrow> (error_handler cfg e, store)
           | Done r \<Rightarrow> (\<lparr> response = r, handled_by = None \<rparr>, store)
           | Next \<Rightarrow>
               if mount_match ''/api'' (req_path req) then
                 (case rateLimit apiLimiter now store (req_ip req) of
                    (ok, hs, store') \<Rightarrow>
                      if ok then (with_headers hs (routes cfg now req), store')
                      else (\<lparr> response = too_many hs, handled_by = None \<rparr>, store'))
               else (routes cfg now req, store)))"

text \<open>A sequence of requests, each with its arrival time, threads the store.\<close>

fun serve :: "config \<Rightarrow> limiter_store \<Rightarrow> (nat \<times> request) list \<Rightarrow> outcome list \<times> limiter_store" where
  "serve cfg store [] = ([], store)"
| "serve cfg store ((now, req) # rest) =
     (case handle cfg now store req of
        (out, store') \<Rightarrow>
          (case serve cfg store' rest of (outs, store'') \<Rightarrow> (out # outs, store'')))"

section \<open>The server file: start and graceful shutdown\<close>

text \<open>
  \<^verbatim>\<open>
  function shutdown(signal) {
    logger.warn({ signal }, "Graceful shutdown start");
    server.close(err => {
      if (err) {
        logger.error({ err }, "Error closing server");
        process.exit(1);
      }
      logger.warn("HTTP server closed. Bye");
      process.exit(0);
    });
    setTimeout(() => {
      logger.error("Forcing shutdown");
      process.exit(1);
    }, 10_000).unref();
  }
  process.on("SIGINT", () => shutdown("SIGINT"));
  process.on("SIGTERM", () => shutdown("SIGTERM"));
  \<close>
  The process is a state machine driven by what the runtime delivers: a
  signal, the callback of \<open>server.close\<close> (with or without an error) once
  the open connections have ended, and the passing of time (in
  milliseconds), which fires the timers that are due. \<open>server.close\<close> stops
  the listener at once and keeps its callback for later; \<open>setTimeout\<close>
  arms a timer and \<open>unref\<close> clears the flag by which a pending timer keeps
  the event loop alive. Until the close callback has run, the open
  connections keep the event loop alive, so a timer that falls due fires.
  \<open>process.exit\<close> ends the process: no later event changes its state.
\<close>

datatype signal = SIGINT | SIGTERM

record timer =
  deadline :: nat
  refd :: bool

record process =
  clock :: nat
  listening :: bool
  close_callbacks :: nat
  timers :: "timer list"
  exit_code :: "nat option"

datatype event = Signal signal | Closed "js_error option" | Elapse nat

text \<open>The exit codes of the two callbacks.\<close>

definition on_close :: "js_error option \<Rightarrow> nat" where
  "on_close err = (if err \<noteq> None then 1 else 0)"

definition on_timeout :: nat where
  "on_timeout = 1"

text \<open>
  \<open>shutdown\<close>: \<open>server.close(callback)\<close>, then
  \<open>setTimeout(callback, 10_000).unref()\<close>.
\<close>

definition shutdown :: "signal \<Rightarrow> process \<Rightarrow> process" where
  "shutdown sig p =
     p \<lparr> listening := False,
         close_callbacks := close_callbacks p + 1,
         timers := timers p @ [\<lparr> deadline = clock p + 10000, refd = False \<rparr>] \<rparr>"

text \<open>
  One event. Both signals run \<open>shutdown\<close>. The close callback runs when
  the runtime delivers it and one is registered. When time passes, a timer
  whose deadline is reached runs the forced exit.
\<close>

definition step :: "process \<Rightarrow> event \<Rightarrow> process" where
  "step p ev =
     (if exit_code p \<noteq> None then p
      else
        (case ev of
           Signal sig \<Rightarrow> shutdown sig p
         | Closed err \<Rightarrow>
             if close_callbacks p = 0 then p else p \<lparr> exit_code := Some (on_close err) \<rparr>
         | Elapse d \<Rightarrow>
             (let p' = p \<lparr> clock := clock p + d \<rparr> in
              if \<exists>t \<in> set (timers p'). deadline t \<le> clock p'
              then p' \<lparr> exit_code := Some on_timeout \<rparr>
              else p')))"

definition run :: "process \<Rightarrow> event list \<Rightarrow> process" where
  "run p evs = foldl step p evs"


section \<open>Predicates used in the statements\<close>

text \<open>
  A request matches a wired route when one of the four \<open>app.get\<close> layers
  takes it; it reaches the rate limiter when the body parsers and CORS let it
  through and its path is under the mount point \<open>/api\<close>.
\<close>

definition wired :: "request \<Rightarrow> bool" where
  "wired req =
     (get_route ''/livez'' req \<or> get_route ''/readyz'' req \<or>
      get_route ''/api/hello'' req \<or> get_route ''/'' req)"

definition reaches_limiter :: "config \<Rightarrow> request \<Rightarrow> bool" where
  "reaches_limiter cfg req =
     (req_body_fault req = None \<and> cors (corsOptions cfg) req = Next \<and>
      mount_match ''/api'' (req_path req))"

text \<open>
  A request of a trace counts against the bucket of a client address when it
  reaches the rate limiter and comes from that address.
\<close>

definition counted :: "config \<Rightarrow> string \<Rightarrow> nat \<times> request \<Rightarrow> bool" where
  "counted cfg ip tq = (reaches_limiter cfg (snd tq) \<and> req_ip (snd tq) = ip)"

section \<open>Properties of split and trim\<close>

lemma split_not_Nil: "split sep s \<noteq> []"
  by (induction s) (auto split: list.splits)

lemma join_split: "join sep (split sep s) = s"
proof (induction s)
  case Nil
  show ?case by simp
next
  case (Cons c cs)
  obtain p ps where sp: "split sep cs = p # ps"
    using split_not_Nil [of sep cs] by (cases "split sep cs") auto
  from Cons sp show ?case
    by (cases ps) auto
qed

lemma split_pieces_free: "p \<in> set (split sep s) \<Longrightarrow> sep \<notin> set p"
  by (induction s arbitrary: p) (auto split: if_splits list.splits)

lemma split_pieces_subset: "p \<in> set (split sep s) \<Longrightarrow> set p \<subseteq> set s"
proof (induction s arbitrary: p)
  case Nil
  then show ?case by simp
next
  case (Cons c cs)
  obtain q qs where sp: "split sep cs = q # qs"
    using split_not_Nil [of sep cs] by (cases "split sep cs") auto
  show ?case
  proof (cases "c = sep")
    case True
    with Cons show ?thesis by auto
  next
    case False
    with Cons.prems sp have "p = c # q \<or> p \<in> set qs" by simp
    moreover have "set q \<subseteq> set cs" using Cons.IH [of q] sp by simp
    moreover have "p \<in> set qs \<Longrightarrow> set p \<subseteq> set cs" using Cons.IH [of p] sp by simp
    ultimately show ?thesis by auto
  qed
qed

lemma length_split: "length (split sep s) = Suc (length (filter (\<lambda>c. c = sep) s))"
  by (induction s) (auto split: list.splits simp: split_not_Nil)

lemma trim_Nil_drop: "dropWhile js_whitespace s = [] \<Longrightarrow> trim s = []"
  unfolding trim_def by (simp only: rev.simps dropWhile.simps)

lemma trim_all_whitespace: "list_all js_whitespace s \<Longrightarrow> trim s = []"
proof -
  assume "list_all js_whitespace s"
  then have "dropWhile js_whitespace s = []" by (simp add: list_all_iff)
  then show ?thesis by (rule trim_Nil_drop)
qed

lemma blank_pieces:
  assumes blank: "\<forall>c \<in> set s. c = CHR '','' \<or> js_whitespace c"
    and p: "p \<in> set (split (CHR '','') s)"
  shows "trim p = []"
proof -
  have "js_whitespace c" if "c \<in> set p" for c
  proof -
    from that split_pieces_subset [OF p] have "c \<in> set s" by (rule subsetD [rotated])
    with blank have "c = CHR '','' \<or> js_whitespace c" by (rule bspec)
    moreover from that split_pieces_free [OF p] have "c \<noteq> CHR '',''" by metis
    ultimately show ?thesis by simp
  qed
  then have "list_all js_whitespace p" by (simp add: list_all_iff)
  then show ?thesis by (rule trim_all_whitespace)
qed

lemma parseOrigins_blank:
  assumes "\<forall>c \<in> set s. c = CHR '','' \<or> js_whitespace c"
  shows "parseOrigins (Some s) = []"
proof -
  have "filter (\<lambda>e. e \<noteq> []) (map trim (split (CHR '','') s)) = []"
    unfolding filter_empty_conv using blank_pieces [OF assms] by (simp add: image_iff)
  then show ?thesis by (simp add: parseOrigins_def)
qed

lemma split_piece: "sep \<notin> set p \<Longrightarrow> split sep p = [p]"
  by (induction p) auto

lemma split_append_sep: "sep \<notin> set p \<Longrightarrow> split sep (p @ sep # s) = p # split sep s"
  by (induction p) auto

lemma split_join:
  "ps \<noteq> [] \<Longrightarrow> \<forall>p \<in> set ps. sep \<notin> set p \<Longrightarrow> split sep (join sep ps) = ps"
proof (induction sep ps rule: join.induct)
  case (1 sep)
  then show ?case by simp
next
  case (2 sep p)
  then show ?case by (simp add: split_piece)
next
  case (3 sep p q ps)
  then show ?case by (simp add: split_append_sep)
qed

lemma trim_no_leading: "trim s \<noteq> [] \<Longrightarrow> \<not> js_whitespace (hd (trim s))"
proof -
  assume ne: "trim s \<noteq> []"
  let ?t = "dropWhile js_whitespace s"
  have t_ne: "?t \<noteq> []" using ne trim_Nil_drop by blast
  then have hd_t: "\<not> js_whitespace (hd ?t)" by (rule hd_dropWhile)
  obtain c cs where t: "?t = c # cs" using t_ne by (cases ?t) auto
  with hd_t have c: "\<not> js_whitespace c" by simp
  have "rev ?t = rev cs @ [c]" using t by simp
  then have "dropWhile js_whitespace (rev ?t) = dropWhile js_whitespace (rev cs) @ [c]"
    using c by (simp add: dropWhile_append3)
  then have "trim s = c # rev (dropWhile js_whitespace (rev cs))"
    by (simp add: trim_def)
  with c show ?thesis by simp
qed

lemma trim_no_trailing: "trim s \<noteq> [] \<Longrightarrow> \<not> js_whitespace (last (trim s))"
proof -
  assume ne: "trim s \<noteq> []"
  let ?r = "dropWhile js_whitespace (rev (dropWhile js_whitespace s))"
  have r_ne: "?r \<noteq> []" using ne by (simp add: trim_def)
  then have "\<not> js_whitespace (hd ?r)" by (rule hd_dropWhile)
  moreover have "last (trim s) = hd ?r"
    using r_ne by (simp add: trim_def last_rev)
  ultimately show ?thesis by simp
qed

lemma trim_decompose:
  "\<exists>l r. s = l @ trim s @ r \<and> list_all js_whitespace l \<and> list_all js_whitespace r"
proof -
  let ?l = "takeWhile js_whitespace s"
  let ?t = "dropWhile js_whitespace s"
  let ?r = "rev (takeWhile js_whitespace (rev ?t))"
  have "rev ?t = takeWhile js_whitespace (rev ?t) @ dropWhile js_whitespace (rev ?t)"
    by (simp only: takeWhile_dropWhile_id)
  then have "rev (rev ?t) = rev (takeWhile js_whitespace (rev ?t) @ dropWhile js_whitespace (rev ?t))"
    by (rule arg_cong)
  then have "?t = trim s @ ?r"
    by (simp only: rev_rev_ident rev_append trim_def)
  moreover have "s = ?l @ ?t" by (simp only: takeWhile_dropWhile_id)
  ultimately have "s = ?l @ trim s @ ?r" by metis
  moreover have "list_all js_whitespace ?l"
    by (simp add: list_all_iff) (meson set_takeWhileD)
  moreover have "list_all js_whitespace ?r"
    by (simp add: list_all_iff) (meson set_takeWhileD)
  ultimately show ?thesis by blast
qed

lemma set_trim_subset: "set (trim s) \<subseteq> set s"
proof
  fix c assume "c \<in> set (trim s)"
  then have "c \<in> set (dropWhile js_whitespace (rev (dropWhile js_whitespace s)))"
    by (simp add: trim_def)
  then have "c \<in> set (rev (dropWhile js_whitespace s))" by (rule set_dropWhileD)
  then have "c \<in> set (dropWhile js_whitespace s)" by simp
  then show "c \<in> set s" by (rule set_dropWhileD)
qed

section \<open>The configuration loader\<close>

lemma comma_pieces_split: "comma_pieces s (split (CHR '','') s)"
  by (simp add: comma_pieces_def split_not_Nil split_pieces_free join_split)

lemma comma_pieces_unique: "comma_pieces s ps \<Longrightarrow> ps = split (CHR '','') s"
  using split_join [of ps "CHR '',''"] by (simp add: comma_pieces_def)

lemma trimmed_trim: "trimmed p (trim p)"
  using trim_decompose [of p] trim_no_leading [of p] trim_no_trailing [of p]
  by (auto simp: trimmed_def)

lemma dropWhile_all: "list_all P l \<Longrightarrow> dropWhile P (l @ ys) = dropWhile P ys"
  by (induction l) auto

lemma trimmed_unique:
  assumes "trimmed p t"
  shows "t = trim p"
proof -
  from assms obtain l r where p: "p = l @ t @ r"
    and l: "list_all js_whitespace l" and r: "list_all js_whitespace r"
    and ends: "t \<noteq> [] \<longrightarrow> \<not> js_whitespace (hd t) \<and> \<not> js_whitespace (last t)"
    by (auto simp: trimmed_def)
  show ?thesis
  proof (cases "t = []")
    case True
    then have "list_all js_whitespace p" using p l r by simp
    then have "trim p = []" by (rule trim_all_whitespace)
    with True show ?thesis by simp
  next
    case False
    then obtain c cs where t: "t = c # cs" by (cases t) auto
    from False ends have h: "\<not> js_whitespace (hd t)" and e: "\<not> js_whitespace (last t)" by simp_all
    have front: "dropWhile js_whitespace p = t @ r"
      using h t by (simp add: p dropWhile_all [OF l])
    have "rev (t @ r) = rev r @ rev t" by simp
    moreover have "list_all js_whitespace (rev r)" using r by (simp add: list_all_iff)
    ultimately have "dropWhile js_whitespace (rev (t @ r)) = dropWhile js_whitespace (rev t)"
      by (simp only: dropWhile_all)
    moreover have "dropWhile js_whitespace (rev t) = rev t"
      using False e by (simp add: dropWhile_eq_self_iff hd_rev)
    ultimately have "trim p = rev (rev t)" by (simp only: trim_def front)
    then show ?thesis by simp
  qed
qed

lemma list_all2_trimmed: "list_all2 trimmed ps ts = (ts = map trim ps)"
proof
  assume "list_all2 trimmed ps ts"
  then show "ts = map trim ps"
    by (induction rule: list_all2_induct) (simp_all add: trimmed_unique)
next
  assume "ts = map trim ps"
  then show "list_all2 trimmed ps ts"
    by (simp add: list_all2_conv_all_nth trimmed_trim)
qed

lemma spec_allowedOrigins_iff: "spec_allowedOrigins val out = (out = parseOrigins val)"
proof (cases val)
  case None
  then show ?thesis by (simp add: spec_allowedOrigins_def parseOrigins_def)
next
  case (Some s)
  have "(\<exists>ps ts. comma_pieces s ps \<and> list_all2 trimmed ps ts \<and> out = filter (\<lambda>t. t \<noteq> []) ts) =
        (out = filter (\<lambda>t. t \<noteq> []) (map trim (split (CHR '','') s)))"
  proof
    assume "\<exists>ps ts. comma_pieces s ps \<and> list_all2 trimmed ps ts \<and> out = filter (\<lambda>t. t \<noteq> []) ts"
    then obtain ps ts where "comma_pieces s ps" "list_all2 trimmed ps ts"
      and out: "out = filter (\<lambda>t. t \<noteq> []) ts" by blast
    then have "ps = split (CHR '','') s" "ts = map trim ps"
      by (simp_all add: comma_pieces_unique list_all2_trimmed)
    with out show "out = filter (\<lambda>t. t \<noteq> []) (map trim (split (CHR '','') s))" by simp
  next
    assume "out = filter (\<lambda>t. t \<noteq> []) (map trim (split (CHR '','') s))"
    moreover have "list_all2 trimmed (split (CHR '','') s) (map trim (split (CHR '','') s))"
      by (simp add: list_all2_trimmed)
    ultimately show "\<exists>ps ts. comma_pieces s ps \<and> list_all2 trimmed ps ts \<and> out = filter (\<lambda>t. t \<noteq> []) ts"
      using comma_pieces_split [of s] by blast
  qed
  moreover have "parseOrigins (Some s) = filter (\<lambda>t. t \<noteq> []) (map trim (split (CHR '','') s))"
    by (auto simp: parseOrigins_def trim_def)
  ultimately show ?thesis using Some by (simp add: spec_allowedOrigins_def)
qed

text \<open>
  C8. For every value of \<open>CORS_ORIGINS\<close>, the loader's allow-list is the
  list the specification describes, and the only one: the value split at the
  commas, every entry trimmed of the white space at its ends, the empty
  entries dropped; it is empty when the variable is unset. The description
  does not use \<open>split\<close> or \<open>trim\<close>: it says what the pieces and the
  trimmed entries are, so the theorem fixes what both functions compute.
\<close>

theorem corsOrigins_normalised:
  "spec_allowedOrigins (e ''CORS_ORIGINS'') (corsOrigins (load_config e)) \<and>
   (\<forall>out. spec_allowedOrigins (e ''CORS_ORIGINS'') out \<longrightarrow> out = corsOrigins (load_config e))"
  by (simp add: spec_allowedOrigins_iff load_config_def)


theorem corsOrigins_normalised_witness:
  "corsOrigins (load_config [''CORS_ORIGINS'' \<mapsto> '' a ,,b'']) = [''a'', ''b''] \<and>
   corsOrigins (load_config Map.empty) = []"
proof -
  have cp: "comma_pieces '' a ,,b'' ['' a '', [], ''b'']"
    by (simp add: comma_pieces_def)
  have t1: "trimmed '' a '' ''a''"
    unfolding trimmed_def
    by (rule exI [of _ "'' ''"], rule exI [of _ "'' ''"]) (simp add: js_whitespace_def)
  have t2: "trimmed [] []"
    unfolding trimmed_def by (rule exI [of _ "[]"], rule exI [of _ "[]"]) simp
  have t3: "trimmed ''b'' ''b''"
    unfolding trimmed_def
    by (rule exI [of _ "[]"], rule exI [of _ "[]"]) (simp add: js_whitespace_def)
  have tr: "list_all2 trimmed ['' a '', [], ''b''] [''a'', [], ''b'']"
    using t1 t2 t3 by simp
  have fl: "[''a'', ''b''] = filter (\<lambda>t. t \<noteq> []) [''a'', [], ''b'']" by simp
  have described: "spec_allowedOrigins (Some '' a ,,b'') [''a'', ''b'']"
    unfolding spec_allowedOrigins_def option.case
    by (rule exI [of _ "['' a '', [], ''b'']"], rule exI [of _ "[''a'', [], ''b'']"])
       (intro conjI cp tr fl)
  have only: "\<forall>out. spec_allowedOrigins (Some '' a ,,b'') out \<longrightarrow>
          out = corsOrigins (load_config [''CORS_ORIGINS'' \<mapsto> '' a ,,b''])"
    using corsOrigins_normalised [of "[''CORS_ORIGINS'' \<mapsto> '' a ,,b'']"] by simp
  have a: "corsOrigins (load_config [''CORS_ORIGINS'' \<mapsto> '' a ,,b'']) = [''a'', ''b'']"
    using only [rule_format, OF described] by (rule sym)
  have "spec_allowedOrigins None (corsOrigins (load_config Map.empty))"
    using corsOrigins_normalised [of Map.empty] by simp
  then have b: "corsOrigins (load_config Map.empty) = []"
    by (simp add: spec_allowedOrigins_def)
  from a b show ?thesis by simp
qed

lemma first_char_not_numeric:
  assumes "\<not> is_digit 10 c" "c \<noteq> CHR ''+''" "c \<noteq> CHR ''-''" "c \<noteq> CHR ''.''" "c \<noteq> CHR ''I''"
  shows "StrNumericLiteral (c # cs) = None"
proof -
  have z: "c \<noteq> CHR ''0''" using assms(1) by (auto simp: is_digit_def digit_of_def)
  have nd: "NonDecimalIntegerLiteral (c # cs) = None"
    using z by (simp add: NonDecimalIntegerLiteral_def split: list.splits)
  have m: "Mantissa (takeWhile (\<lambda>x. \<not> is_exponent_char x) (c # cs)) = None"
    using assms by (auto simp: Mantissa_def Digits_def Let_def split: list.splits)
  have "StrUnsignedDecimalLiteral (c # cs) = None"
    unfolding StrUnsignedDecimalLiteral_def using assms(5) m by simp
  then have "StrDecimalLiteral (c # cs) = None"
    using assms by (simp add: StrDecimalLiteral_def)
  with nd show ?thesis by (simp add: StrNumericLiteral_def)
qed

lemmas number_defs =
  StringToNumber_def trim_def js_whitespace_def StrNumericLiteral_def
  NonDecimalIntegerLiteral_def StrDecimalLiteral_def StrUnsignedDecimalLiteral_def
  Mantissa_def Digits_def is_digit_def digit_of_def is_exponent_char_def

text \<open>
  C7, as amended. The loader never fails. When \<open>PORT\<close> is missing or empty
  the port is the default 3000. When \<open>PORT\<close> is set to a string that, once
  trimmed, is not empty and is not a numeric literal, the port is \<open>NaN\<close>;
  this is so in particular when the trimmed string starts with a character
  that is neither a decimal digit nor one of \<open>+ - . I\<close>.
\<close>

theorem port_coercion:
  "(e ''PORT'' = None \<or> e ''PORT'' = Some [] \<longrightarrow> port (load_config e) = Finite 3000) \<and>
   (\<forall>s. e ''PORT'' = Some s \<and> trim s \<noteq> [] \<and> StrNumericLiteral (trim s) = None
        \<longrightarrow> port (load_config e) = NaN) \<and>
   (\<forall>s c cs. e ''PORT'' = Some s \<and> trim s = c # cs \<and> \<not> is_digit 10 c \<and>
        c \<noteq> CHR ''+'' \<and> c \<noteq> CHR ''-'' \<and> c \<noteq> CHR ''.'' \<and> c \<noteq> CHR ''I''
        \<longrightarrow> port (load_config e) = NaN)"
proof (intro conjI allI impI)
  assume "e ''PORT'' = None \<or> e ''PORT'' = Some []"
  then show "port (load_config e) = Finite 3000"
    by (auto simp: load_config_def)
next
  fix s
  assume a: "e ''PORT'' = Some s \<and> trim s \<noteq> [] \<and> StrNumericLiteral (trim s) = None"
  then have "s \<noteq> []" by (auto simp: trim_def)
  with a show "port (load_config e) = NaN"
    by (simp add: load_config_def StringToNumber_def)
next
  fix s c cs
  assume a: "e ''PORT'' = Some s \<and> trim s = c # cs \<and> \<not> is_digit 10 c \<and>
        c \<noteq> CHR ''+'' \<and> c \<noteq> CHR ''-'' \<and> c \<noteq> CHR ''.'' \<and> c \<noteq> CHR ''I''"
  then have "StrNumericLiteral (trim s) = None"
    by (simp add: first_char_not_numeric)
  moreover from a have "s \<noteq> []" by (auto simp: trim_def)
  ultimately show "port (load_config e) = NaN"
    using a by (simp add: load_config_def StringToNumber_def)
qed

theorem port_coercion_witness:
  "port (load_config Map.empty) = Finite 3000 \<and>
   port (load_config [''PORT'' \<mapsto> ''abc'']) = NaN \<and>
   port (load_config [''PORT'' \<mapsto> '' http '']) = NaN"
  using port_coercion [of Map.empty] port_coercion [of "[''PORT'' \<mapsto> ''abc'']"]
    port_coercion [of "[''PORT'' \<mapsto> '' http '']"]
  by (simp add: number_defs)

text \<open>
  The claim as written fails for a missing \<open>PORT\<close>: the port is then 3000,
  not \<open>NaN\<close>.
\<close>

theorem port_missing_counterexample:
  "port (load_config Map.empty) = Finite 3000 \<and> port (load_config Map.empty) \<noteq> NaN"
  by (simp add: load_config_def)

lemma cors_accept_not_Fail: "cors_accept req \<noteq> Fail err"
  by (simp add: cors_accept_def)

lemma corsOptions_empty: "corsOrigins cfg = [] \<Longrightarrow> corsOptions cfg = \<lparr> origin = None, credentials = None \<rparr>"
  by (simp add: corsOptions_def)

lemma cors_permissive: "corsOrigins cfg = [] \<Longrightarrow> cors (corsOptions cfg) req = cors_accept req"
  by (simp add: corsOptions_empty cors_def)

text \<open>
  C9. When \<open>CORS_ORIGINS\<close> consists of commas and white space only, the
  allow-list is empty, the CORS options are those of an unset variable (the
  empty options object), and the CORS middleware turns no request down.
\<close>

theorem blank_origins_permissive:
  assumes "\<forall>c \<in> set s. c = CHR '','' \<or> js_whitespace c"
  shows "corsOrigins (load_config (e(''CORS_ORIGINS'' \<mapsto> s))) = [] \<and>
         corsOptions (load_config (e(''CORS_ORIGINS'' \<mapsto> s))) =
           corsOptions (load_config (e(''CORS_ORIGINS'' := None))) \<and>
         (\<forall>req. cors (corsOptions (load_config (e(''CORS_ORIGINS'' \<mapsto> s)))) req = cors_accept req) \<and>
         (\<forall>req err. cors (corsOptions (load_config (e(''CORS_ORIGINS'' \<mapsto> s)))) req \<noteq> Fail err)"
proof -
  let ?cfg = "load_config (e(''CORS_ORIGINS'' \<mapsto> s))"
  let ?unset = "load_config (e(''CORS_ORIGINS'' := None))"
  have blank: "corsOrigins ?cfg = []"
    using parseOrigins_blank [OF assms] by (simp add: load_config_def)
  have unset: "corsOrigins ?unset = []"
    by (simp add: load_config_def parseOrigins_def)
  have "corsOptions ?cfg = corsOptions ?unset"
    using blank unset by (simp only: corsOptions_empty)
  moreover have acc: "cors (corsOptions ?cfg) req = cors_accept req" for req
    using blank by (rule cors_permissive)
  moreover have "cors (corsOptions ?cfg) req \<noteq> Fail err" for req err
    by (simp only: acc cors_accept_not_Fail not_False_eq_True)
  ultimately show ?thesis using blank by blast
qed

theorem blank_origins_permissive_witness:
  "corsOrigins (load_config [''CORS_ORIGINS'' \<mapsto> '' , '']) = [] \<and>
   corsOptions (load_config [''CORS_ORIGINS'' \<mapsto> '' , '']) = corsOptions (load_config Map.empty)"
  using blank_origins_permissive [of "'' , ''" Map.empty]
  by (simp add: js_whitespace_def)

section \<open>The middleware chain\<close>

lemma toLowerCase_simps [simp]:
  "toLowerCase [] = []"
  "toLowerCase (c # cs) = lower_ascii c # toLowerCase cs"
  by (simp_all add: toLowerCase_def)



lemma handle_body_fault:
  "req_body_fault req = Some e \<Longrightarrow> handle cfg now store req = (error_handler cfg e, store)"
  by (simp add: handle_def)

lemma handle_cors_fail:
  "req_body_fault req = None \<Longrightarrow> cors (corsOptions cfg) req = Fail e \<Longrightarrow>
   handle cfg now store req = (error_handler cfg e, store)"
  by (simp add: handle_def)

lemma handle_preflight:
  "req_body_fault req = None \<Longrightarrow> cors (corsOptions cfg) req = Done r \<Longrightarrow>
   handle cfg now store req = (\<lparr> response = r, handled_by = None \<rparr>, store)"
  by (simp add: handle_def)

lemma handle_routes:
  "req_body_fault req = None \<Longrightarrow> cors (corsOptions cfg) req = Next \<Longrightarrow>
   \<not> mount_match ''/api'' (req_path req) \<Longrightarrow>
   handle cfg now store req = (routes cfg now req, store)"
  by (simp add: handle_def)

lemma handle_limited:
  "reaches_limiter cfg req \<Longrightarrow>
   handle cfg now store req =
     (case rateLimit apiLimiter now store (req_ip req) of
        (ok, hs, store') \<Rightarrow>
          if ok then (with_headers hs (routes cfg now req), store')
          else (\<lparr> response = too_many hs, handled_by = None \<rparr>, store'))"
  by (simp add: handle_def reaches_limiter_def)

lemma with_headers_simps [simp]:
  "res_status (response (with_headers hs out)) = res_status (response out)"
  "res_body (response (with_headers hs out)) = res_body (response out)"
  "handled_by (with_headers hs out) = handled_by out"
  "res_headers (response (with_headers hs out)) = hs @ res_headers (response out)"
  by (simp_all add: with_headers_def)


lemma routes_unmatched: "\<not> wired req \<Longrightarrow> routes cfg now req = send 404 (Json not_found_body) NotFoundHandler"
  by (simp add: routes_def wired_def)


lemma wired_iff:
  "wired req =
     ((toLowerCase (req_method req) = ''get'' \<or> toLowerCase (req_method req) = ''head'') \<and>
      toLowerCase (req_path req) \<in>
        {''/livez'', ''/livez/'', ''/readyz'', ''/readyz/'', ''/api/hello'', ''/api/hello/'', ''/'', []})"
  by (auto simp: wired_def get_route_def path_match_def)

lemma wired_table:
  assumes "req_method req = ''GET''"
    and "req_path req \<in> {''/livez'', ''/readyz'', ''/api/hello'', ''/''}"
  shows "wired req"
  using assms by (auto simp: wired_iff lower_ascii_def)

lemma cors_allow_list:
  assumes "corsOrigins cfg \<noteq> []"
  shows "cors (corsOptions cfg) req =
           (case origin_callback (corsOrigins cfg) (req_headers req ''origin'') of
              Inl e \<Rightarrow> Fail e
            | Inr ok \<Rightarrow> if ok then cors_accept req else Next)"
  using assms by (simp add: corsOptions_def cors_def)

lemma cors_passes:
  assumes "req_headers req ''origin'' = None \<or> req_headers req ''origin'' = Some [] \<or>
           (\<exists>v. req_headers req ''origin'' = Some v \<and> v \<in> set (corsOrigins cfg))"
  shows "cors (corsOptions cfg) req = cors_accept req"
proof (cases "corsOrigins cfg = []")
  case True
  then show ?thesis by (simp add: corsOptions_def cors_def)
next
  case False
  with assms show ?thesis
    by (auto simp: cors_allow_list origin_callback_def)
qed

lemma cors_rejects:
  assumes "corsOrigins cfg \<noteq> []" "req_headers req ''origin'' = Some v" "v \<noteq> []"
    "v \<notin> set (corsOrigins cfg)"
  shows "cors (corsOptions cfg) req = Fail \<lparr> err_status = None, err_message = ''Not allowed by CORS'' \<rparr>"
  using assms by (simp add: cors_allow_list origin_callback_def)

lemmas chain_defs =
  handle_def cors_def corsOptions_def origin_callback_def cors_accept_def preflight_def
  routes_def get_route_def path_match_def mount_match_def lower_ascii_def
  error_handler_def error_status_def send_def not_found_body_def wired_def




text \<open>
  C3. The error handler answers with the error's status when it has one
  (\<open>err.status || 500\<close>: a status of 0 counts as none) and with 500
  otherwise; the body is \<open>{ok: false, error: m}\<close> where \<open>m\<close> is
  \<open>Internal Server Error\<close> when the environment is \<open>production\<close> and the
  error's own message in every other environment. The errors of the body
  parsers and of the CORS middleware reach this handler.
\<close>

theorem error_handler_response:
  "(\<forall>st. err_status err = Some st \<and> st \<noteq> 0 \<longrightarrow>
        res_status (response (error_handler cfg err)) = st) \<and>
   (err_status err = None \<or> err_status err = Some 0 \<longrightarrow>
        res_status (response (error_handler cfg err)) = 500) \<and>
   (env cfg = ''production'' \<longrightarrow>
        res_body (response (error_handler cfg err)) =
          Json (JObject [(''ok'', JBool False), (''error'', JString ''Internal Server Error'')])) \<and>
   (env cfg \<noteq> ''production'' \<longrightarrow>
        res_body (response (error_handler cfg err)) =
          Json (JObject [(''ok'', JBool False), (''error'', JString (err_message err))])) \<and>
   (\<forall>req now store. req_body_fault req = Some err \<longrightarrow>
        handle cfg now store req = (error_handler cfg err, store)) \<and>
   (\<forall>req now store. req_body_fault req = None \<and> cors (corsOptions cfg) req = Fail err \<longrightarrow>
        handle cfg now store req = (error_handler cfg err, store))"
  by (auto simp: error_handler_def send_def error_status_def handle_body_fault handle_cors_fail)


theorem error_handler_response_witness:
  "res_status (response (error_handler
      \<lparr> env = ''production'', port = Finite 3000, corsOrigins = [], trustProxy = False, baseUrl = None \<rparr>
      \<lparr> err_status = Some 413, err_message = ''request entity too large'' \<rparr>)) = 413 \<and>
   res_body (response (error_handler
      \<lparr> env = ''production'', port = Finite 3000, corsOrigins = [], trustProxy = False, baseUrl = None \<rparr>
      \<lparr> err_status = Some 413, err_message = ''request entity too large'' \<rparr>)) =
     Json (JObject [(''ok'', JBool False), (''error'', JString ''Internal Server Error'')]) \<and>
   res_status (response (error_handler
      \<lparr> env = ''development'', port = Finite 3000, corsOrigins = [], trustProxy = False, baseUrl = None \<rparr>
      \<lparr> err_status = None, err_message = ''boom'' \<rparr>)) = 500 \<and>
   res_body (response (error_handler
      \<lparr> env = ''development'', port = Finite 3000, corsOrigins = [], trustProxy = False, baseUrl = None \<rparr>
      \<lparr> err_status = None, err_message = ''boom'' \<rparr>)) =
     Json (JObject [(''ok'', JBool False), (''error'', JString ''boom'')])"
  using
    error_handler_response [of "\<lparr> err_status = Some 413, err_message = ''request entity too large'' \<rparr>"
      "\<lparr> env = ''production'', port = Finite 3000, corsOrigins = [], trustProxy = False, baseUrl = None \<rparr>"]
    error_handler_response [of "\<lparr> err_status = None, err_message = ''boom'' \<rparr>"
      "\<lparr> env = ''development'', port = Finite 3000, corsOrigins = [], trustProxy = False, baseUrl = None \<rparr>"]
  by simp

text \<open>
  C1, as amended. With a non-empty allow-list, a request that the body
  parsers let through and whose \<open>Origin\<close> header is non-empty and not in the
  list is turned down by the CORS middleware with the error
  \<open>Not allowed by CORS\<close>; the error handler answers it with status 500 and
  the JSON error body, and no route handler runs. A request without an
  \<open>Origin\<close> header, with an empty one, or with one in the list is accepted
  by the CORS middleware.
\<close>

theorem cors_rejection:
  assumes "corsOrigins cfg \<noteq> []" and "req_body_fault req = None"
  shows
   "(\<forall>v. req_headers req ''origin'' = Some v \<and> v \<noteq> [] \<and> v \<notin> set (corsOrigins cfg) \<longrightarrow>
        cors (corsOptions cfg) req =
          Fail \<lparr> err_status = None, err_message = ''Not allowed by CORS'' \<rparr> \<and>
        handle cfg now store req =
          (\<lparr> response =
               \<lparr> res_status = 500,
                 res_body = Json (JObject [(''ok'', JBool False),
                   (''error'', JString (if env cfg = ''production'' then ''Internal Server Error''
                                        else ''Not allowed by CORS''))]),
                 res_headers = [] \<rparr>,
              handled_by = Some ErrorHandler \<rparr>, store) \<and>
        handled_by (fst (handle cfg now store req)) \<notin> Some ` route_handlers) \<and>
    (req_headers req ''origin'' = None \<or> req_headers req ''origin'' = Some [] \<or>
      (\<exists>v. req_headers req ''origin'' = Some v \<and> v \<in> set (corsOrigins cfg)) \<longrightarrow>
        cors (corsOptions cfg) req = cors_accept req \<and>
        (\<forall>e. cors (corsOptions cfg) req \<noteq> Fail e))"
proof (intro conjI allI impI)
  fix v
  assume v: "req_headers req ''origin'' = Some v \<and> v \<noteq> [] \<and> v \<notin> set (corsOrigins cfg)"
  then show rej: "cors (corsOptions cfg) req =
          Fail \<lparr> err_status = None, err_message = ''Not allowed by CORS'' \<rparr>"
    using assms(1) by (simp add: cors_rejects)
  show h: "handle cfg now store req =
          (\<lparr> response =
               \<lparr> res_status = 500,
                 res_body = Json (JObject [(''ok'', JBool False),
                   (''error'', JString (if env cfg = ''production'' then ''Internal Server Error''
                                        else ''Not allowed by CORS''))]),
                 res_headers = [] \<rparr>,
              handled_by = Some ErrorHandler \<rparr>, store)"
    using handle_cors_fail [OF assms(2) rej]
    by (simp add: error_handler_def send_def error_status_def)
  show "handled_by (fst (handle cfg now store req)) \<notin> Some ` route_handlers"
    by (simp add: h route_handlers_def)
next
  assume a: "req_headers req ''origin'' = None \<or> req_headers req ''origin'' = Some [] \<or>
      (\<exists>v. req_headers req ''origin'' = Some v \<and> v \<in> set (corsOrigins cfg))"
  then show acc: "cors (corsOptions cfg) req = cors_accept req" by (rule cors_passes)
  fix e
  show "cors (corsOptions cfg) req \<noteq> Fail e"
    by (simp add: acc cors_accept_def)
qed


theorem cors_rejection_witness:
  "handle
     \<lparr> env = ''development'', port = Finite 3000, corsOrigins = [''https://a.example''],
       trustProxy = False, baseUrl = None \<rparr>
     0 Map.empty
     \<lparr> req_method = ''GET'', req_path = ''/api/hello'',
       req_headers = [''origin'' \<mapsto> ''https://evil.example''],
       req_ip = ''203.0.113.7'', req_body_fault = None \<rparr> =
     (\<lparr> response =
          \<lparr> res_status = 500,
            res_body = Json (JObject [(''ok'', JBool False), (''error'', JString ''Not allowed by CORS'')]),
            res_headers = [] \<rparr>,
         handled_by = Some ErrorHandler \<rparr>, Map.empty) \<and>
   cors (corsOptions
     \<lparr> env = ''development'', port = Finite 3000, corsOrigins = [''https://a.example''],
       trustProxy = False, baseUrl = None \<rparr>)
     \<lparr> req_method = ''GET'', req_path = ''/api/hello'',
       req_headers = [''origin'' \<mapsto> ''https://a.example''],
       req_ip = ''203.0.113.7'', req_body_fault = None \<rparr> = Next"
  using
    cors_rejection [of
      "\<lparr> env = ''development'', port = Finite 3000, corsOrigins = [''https://a.example''],
         trustProxy = False, baseUrl = None \<rparr>"
      "\<lparr> req_method = ''GET'', req_path = ''/api/hello'',
         req_headers = [''origin'' \<mapsto> ''https://evil.example''],
         req_ip = ''203.0.113.7'', req_body_fault = None \<rparr>" 0 Map.empty]
    cors_rejection [of
      "\<lparr> env = ''development'', port = Finite 3000, corsOrigins = [''https://a.example''],
         trustProxy = False, baseUrl = None \<rparr>"
      "\<lparr> req_method = ''GET'', req_path = ''/api/hello'',
         req_headers = [''origin'' \<mapsto> ''https://a.example''],
         req_ip = ''203.0.113.7'', req_body_fault = None \<rparr>" 0 Map.empty]
  by (simp add: cors_accept_def lower_ascii_def)

text \<open>
  The claim as written fails: the rejection is answered with status 500, which
  is not a 4xx status; and an \<open>Origin\<close> header that is present but empty is
  not checked against the list.
\<close>

theorem cors_status_counterexample:
  "res_status (response (fst (handle
     \<lparr> env = ''development'', port = Finite 3000, corsOrigins = [''https://a.example''],
       trustProxy = False, baseUrl = None \<rparr>
     0 Map.empty
     \<lparr> req_method = ''GET'', req_path = ''/api/hello'',
       req_headers = [''origin'' \<mapsto> ''https://evil.example''],
       req_ip = ''203.0.113.7'', req_body_fault = None \<rparr>))) = 500 \<and>
   handled_by (fst (handle
     \<lparr> env = ''development'', port = Finite 3000, corsOrigins = [''https://a.example''],
       trustProxy = False, baseUrl = None \<rparr>
     0 Map.empty
     \<lparr> req_method = ''GET'', req_path = ''/livez'',
       req_headers = [''origin'' \<mapsto> ''''],
       req_ip = ''203.0.113.7'', req_body_fault = None \<rparr>)) = Some LivezHandler"
  by (simp add: chain_defs)

lemma options_not_Next:
  "toLowerCase (req_method req) = ''options'' \<Longrightarrow> cors (corsOptions cfg) req \<noteq> Next"
  by (auto simp: cors_def corsOptions_def origin_callback_def cors_accept_def
      split: option.splits sum.splits if_splits)

lemma options_cors_cases:
  assumes "toLowerCase (req_method req) = ''options''"
  shows "cors (corsOptions cfg) req = cors_accept req \<or> (\<exists>e. cors (corsOptions cfg) req = Fail e)"
  by (auto simp: cors_def corsOptions_def origin_callback_def split: option.splits sum.splits if_splits)

lemma options_handled_by:
  assumes "toLowerCase (req_method req) = ''options''"
  shows "handled_by (fst (handle cfg now store req)) =
           (if req_body_fault req = None \<and> cors (corsOptions cfg) req = cors_accept req
            then None else Some ErrorHandler)"
proof (cases "req_body_fault req")
  case (Some e)
  then show ?thesis by (simp add: handle_body_fault error_handler_def send_def)
next
  case None
  have acc: "cors_accept req = Done preflight" using assms by (simp add: cors_accept_def)
  from options_cors_cases [OF assms, of cfg] show ?thesis
  proof
    assume a: "cors (corsOptions cfg) req = cors_accept req"
    then show ?thesis using None acc by (simp add: handle_preflight)
  next
    assume "\<exists>e. cors (corsOptions cfg) req = Fail e"
    then obtain e where f: "cors (corsOptions cfg) req = Fail e" by blast
    then have "cors (corsOptions cfg) req \<noteq> cors_accept req" using acc by simp
    then show ?thesis using None f by (simp add: handle_cors_fail error_handler_def send_def)
  qed
qed




text \<open>
  C6, as amended. A request that reaches the routes (the body parsers, the
  CORS middleware and, under \<open>/api\<close>, the rate limiter hand it on) and
  that matches none of the wired routes is answered by the last middleware
  with status 404 and the body \<open>{"ok": false, "error": "Not Found"}\<close>,
  which goes over the wire unless the method is HEAD. An OPTIONS request
  never reaches the routes or that middleware: when the body parsers let it
  through and the CORS middleware accepts its origin, the CORS middleware
  answers it with status 204 and no body; otherwise the error handler
  answers it.
\<close>

theorem unmatched_not_found:
  "(req_body_fault req = None \<and> cors (corsOptions cfg) req = Next \<and>
    (mount_match ''/api'' (req_path req) \<longrightarrow> fst (rateLimit apiLimiter now store (req_ip req))) \<and>
    \<not> wired req \<longrightarrow>
      res_status (response (fst (handle cfg now store req))) = 404 \<and>
      res_body (response (fst (handle cfg now store req))) =
        Json (JObject [(''ok'', JBool False), (''error'', JString ''Not Found'')]) \<and>
      handled_by (fst (handle cfg now store req)) = Some NotFoundHandler \<and>
      transmitted_body req (response (fst (handle cfg now store req))) =
        (if req_method req = ''HEAD'' then Empty
         else Json (JObject [(''ok'', JBool False), (''error'', JString ''Not Found'')]))) \<and>
   (toLowerCase (req_method req) = ''options'' \<longrightarrow>
      handled_by (fst (handle cfg now store req)) \<noteq> Some NotFoundHandler \<and>
      handled_by (fst (handle cfg now store req)) \<notin> Some ` route_handlers) \<and>
   (toLowerCase (req_method req) = ''options'' \<and> req_body_fault req = None \<and>
    cors (corsOptions cfg) req = cors_accept req \<longrightarrow>
      handle cfg now store req =
        (\<lparr> response = \<lparr> res_status = 204, res_body = Empty, res_headers = [] \<rparr>,
            handled_by = None \<rparr>, store)) \<and>
   (toLowerCase (req_method req) = ''options'' \<and>
    \<not> (req_body_fault req = None \<and> cors (corsOptions cfg) req = cors_accept req) \<longrightarrow>
      handled_by (fst (handle cfg now store req)) = Some ErrorHandler)"
proof -
  have routed: "res_status (response (fst (handle cfg now store req))) = 404 \<and>
      res_body (response (fst (handle cfg now store req))) =
        Json (JObject [(''ok'', JBool False), (''error'', JString ''Not Found'')]) \<and>
      handled_by (fst (handle cfg now store req)) = Some NotFoundHandler"
    if a: "req_body_fault req = None \<and> cors (corsOptions cfg) req = Next \<and>
    (mount_match ''/api'' (req_path req) \<longrightarrow> fst (rateLimit apiLimiter now store (req_ip req))) \<and>
    \<not> wired req"
  proof (cases "mount_match ''/api'' (req_path req)")
    case True
    then have "reaches_limiter cfg req" using a by (simp add: reaches_limiter_def)
    then have "fst (handle cfg now store req) =
       with_headers (fst (snd (rateLimit apiLimiter now store (req_ip req)))) (routes cfg now req)"
      using a True by (auto simp: handle_limited split: prod.splits)
    then show ?thesis
      using a by (simp add: routes_unmatched send_def not_found_body_def)
  next
    case False
    then have "handle cfg now store req = (routes cfg now req, store)"
      using a by (simp add: handle_routes)
    then show ?thesis
      using a by (simp add: routes_unmatched send_def not_found_body_def)
  qed
  have opt: "handled_by (fst (handle cfg now store req)) =
           (if req_body_fault req = None \<and> cors (corsOptions cfg) req = cors_accept req
            then None else Some ErrorHandler)"
    if "toLowerCase (req_method req) = ''options''"
    using that by (rule options_handled_by)
  have pre: "handle cfg now store req =
        (\<lparr> response = \<lparr> res_status = 204, res_body = Empty, res_headers = [] \<rparr>,
            handled_by = None \<rparr>, store)"
    if "toLowerCase (req_method req) = ''options'' \<and> req_body_fault req = None \<and>
        cors (corsOptions cfg) req = cors_accept req"
    using that by (simp add: handle_preflight cors_accept_def preflight_def)
  show ?thesis
  proof (intro conjI impI)
    assume a: "req_body_fault req = None \<and> cors (corsOptions cfg) req = Next \<and>
      (mount_match ''/api'' (req_path req) \<longrightarrow> fst (rateLimit apiLimiter now store (req_ip req))) \<and>
      \<not> wired req"
    from routed [OF a] show "res_status (response (fst (handle cfg now store req))) = 404" by simp
    from routed [OF a] show b: "res_body (response (fst (handle cfg now store req))) =
        Json (JObject [(''ok'', JBool False), (''error'', JString ''Not Found'')])" by simp
    from routed [OF a] show "handled_by (fst (handle cfg now store req)) = Some NotFoundHandler" by simp
    show "transmitted_body req (response (fst (handle cfg now store req))) =
        (if req_method req = ''HEAD'' then Empty
         else Json (JObject [(''ok'', JBool False), (''error'', JString ''Not Found'')]))"
      by (simp add: transmitted_body_def b)
  next
    assume o: "toLowerCase (req_method req) = ''options''"
    show "handled_by (fst (handle cfg now store req)) \<noteq> Some NotFoundHandler"
      by (simp add: opt [OF o])
    show "handled_by (fst (handle cfg now store req)) \<notin> Some ` route_handlers"
      by (simp add: opt [OF o] route_handlers_def)
  next
    assume "toLowerCase (req_method req) = ''options'' \<and> req_body_fault req = None \<and>
      cors (corsOptions cfg) req = cors_accept req"
    then show "handle cfg now store req =
        (\<lparr> response = \<lparr> res_status = 204, res_body = Empty, res_headers = [] \<rparr>,
            handled_by = None \<rparr>, store)" by (rule pre)
  next
    assume "toLowerCase (req_method req) = ''options'' \<and>
      \<not> (req_body_fault req = None \<and> cors (corsOptions cfg) req = cors_accept req)"
    then show "handled_by (fst (handle cfg now store req)) = Some ErrorHandler"
      using opt by auto
  qed
qed

theorem unmatched_not_found_witness:
  "res_status (response (fst (handle
     \<lparr> env = ''development'', port = Finite 3000, corsOrigins = [], trustProxy = False, baseUrl = None \<rparr>
     0 Map.empty
     \<lparr> req_method = ''GET'', req_path = ''/nonexistent'', req_headers = Map.empty,
       req_ip = ''203.0.113.7'', req_body_fault = None \<rparr>))) = 404 \<and>
   res_body (response (fst (handle
     \<lparr> env = ''development'', port = Finite 3000, corsOrigins = [], trustProxy = False, baseUrl = None \<rparr>
     0 Map.empty
     \<lparr> req_method = ''GET'', req_path = ''/nonexistent'', req_headers = Map.empty,
       req_ip = ''203.0.113.7'', req_body_fault = None \<rparr>))) =
     Json (JObject [(''ok'', JBool False), (''error'', JString ''Not Found'')]) \<and>
   handled_by (fst (handle
     \<lparr> env = ''development'', port = Finite 3000, corsOrigins = [''https://a.example''],
       trustProxy = False, baseUrl = None \<rparr>
     0 Map.empty
     \<lparr> req_method = ''OPTIONS'', req_path = ''/nonexistent'',
       req_headers = [''origin'' \<mapsto> ''https://evil.example''],
       req_ip = ''203.0.113.7'', req_body_fault = None \<rparr>)) = Some ErrorHandler"
  using
    unmatched_not_found [of
      "\<lparr> req_method = ''GET'', req_path = ''/nonexistent'', req_headers = Map.empty,
         req_ip = ''203.0.113.7'', req_body_fault = None \<rparr>"
      "\<lparr> env = ''development'', port = Finite 3000, corsOrigins = [], trustProxy = False, baseUrl = None \<rparr>"
      0 Map.empty]
    unmatched_not_found [of
      "\<lparr> req_method = ''OPTIONS'', req_path = ''/nonexistent'',
         req_headers = [''origin'' \<mapsto> ''https://evil.example''],
         req_ip = ''203.0.113.7'', req_body_fault = None \<rparr>"
      "\<lparr> env = ''development'', port = Finite 3000, corsOrigins = [''https://a.example''],
         trustProxy = False, baseUrl = None \<rparr>"
      0 Map.empty]
  by (simp add: cors_def corsOptions_def cors_accept_def origin_callback_def wired_def get_route_def
      path_match_def mount_match_def lower_ascii_def)

text \<open>
  The claim as written fails for OPTIONS requests: the CORS middleware answers
  them before the routes, so an OPTIONS request that matches no wired route
  gets status 204 and an empty body, not the 404 response.
\<close>

theorem options_unmatched_counterexample:
  "\<not> wired \<lparr> req_method = ''OPTIONS'', req_path = ''/nonexistent'', req_headers = Map.empty,
              req_ip = ''203.0.113.7'', req_body_fault = None \<rparr> \<and>
   handle
     \<lparr> env = ''development'', port = Finite 3000, corsOrigins = [], trustProxy = False, baseUrl = None \<rparr>
     0 Map.empty
     \<lparr> req_method = ''OPTIONS'', req_path = ''/nonexistent'', req_headers = Map.empty,
       req_ip = ''203.0.113.7'', req_body_fault = None \<rparr> =
     (\<lparr> response = \<lparr> res_status = 204, res_body = Empty, res_headers = [] \<rparr>,
         handled_by = None \<rparr>, Map.empty)"
  by (simp add: chain_defs)

section \<open>Rate limiting\<close>

lemma apiLimiter_simps [simp]:
  "windowMs apiLimiter = 600000" "max_opt apiLimiter = 100"
  "standardHeaders apiLimiter" "\<not> legacyHeaders apiLimiter"
  by (simp_all add: apiLimiter_def)

lemma rateLimit_fresh:
  assumes "store key = None \<or> (\<exists>b. store key = Some b \<and> resetTime b \<le> now)"
  shows "rateLimit opts now store key =
           (1 \<le> max_opt opts,
            rate_headers opts now \<lparr> hits = 1, resetTime = now + windowMs opts \<rparr>,
            store(key \<mapsto> \<lparr> hits = 1, resetTime = now + windowMs opts \<rparr>))"
  using assms by (auto simp: rateLimit_def current_bucket_def Let_def)

lemma rateLimit_live:
  assumes "store key = Some b" and "now < resetTime b"
  shows "rateLimit opts now store key =
           (hits b + 1 \<le> max_opt opts,
            rate_headers opts now (b \<lparr> hits := hits b + 1 \<rparr>),
            store(key \<mapsto> b \<lparr> hits := hits b + 1 \<rparr>))"
  using assms by (simp add: rateLimit_def current_bucket_def Let_def)

lemma routes_status: "res_status (response (routes cfg now req)) \<noteq> 429"
  by (simp add: routes_def send_def)

lemma routes_handled: "handled_by (routes cfg now req) \<noteq> None"
  by (simp add: routes_def send_def)

lemma rate_header_names:
  "map fst (rate_headers apiLimiter now b) =
     [''RateLimit-Limit'', ''RateLimit-Remaining'', ''RateLimit-Reset'']"
  by (simp add: rate_headers_def)

lemma routes_no_headers: "res_headers (response (routes cfg now req)) = []"
  by (simp add: routes_def send_def)

lemma handle_admitted:
  assumes "reaches_limiter cfg req" and "store (req_ip req) = Some b" and "now < resetTime b"
    and "hits b < 100"
  shows "handle cfg now store req =
           (with_headers (rate_headers apiLimiter now (b \<lparr> hits := hits b + 1 \<rparr>)) (routes cfg now req),
            store(req_ip req \<mapsto> b \<lparr> hits := hits b + 1 \<rparr>))"
  using assms by (simp add: handle_limited rateLimit_live)

lemma handle_refused:
  assumes "reaches_limiter cfg req" and "store (req_ip req) = Some b" and "now < resetTime b"
    and "100 \<le> hits b"
  shows "handle cfg now store req =
           (\<lparr> response = too_many (rate_headers apiLimiter now (b \<lparr> hits := hits b + 1 \<rparr>)),
              handled_by = None \<rparr>,
            store(req_ip req \<mapsto> b \<lparr> hits := hits b + 1 \<rparr>))"
  using assms by (simp add: handle_limited rateLimit_live)

lemma handle_new_window:
  assumes "reaches_limiter cfg req"
    and "store (req_ip req) = None \<or> (\<exists>b. store (req_ip req) = Some b \<and> resetTime b \<le> now)"
  shows "handle cfg now store req =
           (with_headers (rate_headers apiLimiter now \<lparr> hits = 1, resetTime = now + 600000 \<rparr>)
              (routes cfg now req),
            store(req_ip req \<mapsto> \<lparr> hits = 1, resetTime = now + 600000 \<rparr>))"
  using assms(1) rateLimit_fresh [of store "req_ip req" now apiLimiter] assms(2)
  by (simp add: handle_limited)

lemma handle_frame:
  assumes "\<not> (reaches_limiter cfg q \<and> req_ip q = ip)"
  shows "snd (handle cfg now st q) ip = st ip"
proof (cases "reaches_limiter cfg q")
  case True
  with assms have "req_ip q \<noteq> ip" by simp
  then show ?thesis
    using True by (auto simp: handle_limited rateLimit_def Let_def split: prod.splits)
next
  case False
  then have "snd (handle cfg now st q) = st"
    by (auto simp: handle_def reaches_limiter_def
        split: option.splits stage_result.splits prod.splits)
  then show ?thesis by simp
qed

lemma serve_frame:
  "\<forall>tq \<in> set reqs. \<not> counted cfg k tq \<Longrightarrow> snd (serve cfg store reqs) k = store k"
proof (induction reqs arbitrary: store)
  case Nil
  then show ?case by simp
next
  case (Cons tq reqs)
  obtain t q where tq: "tq = (t, q)" by (cases tq)
  from Cons.prems tq have "\<not> (reaches_limiter cfg q \<and> req_ip q = k)"
    by (simp add: counted_def)
  then have one: "snd (handle cfg t store q) k = store k" by (rule handle_frame)
  have "snd (serve cfg store (tq # reqs)) = snd (serve cfg (snd (handle cfg t store q)) reqs)"
    using tq by (simp split: prod.splits)
  moreover have "snd (serve cfg (snd (handle cfg t store q)) reqs) k = snd (handle cfg t store q) k"
    using Cons.prems by (intro Cons.IH) simp
  ultimately show ?case using one by simp
qed

lemma serve_Cons:
  "serve cfg store ((t, q) # reqs) =
     (fst (handle cfg t store q) # fst (serve cfg (snd (handle cfg t store q)) reqs),
      snd (serve cfg (snd (handle cfg t store q)) reqs))"
  by (simp split: prod.splits)

lemma serve_counted:
  assumes "store ip = Some \<lparr> hits = h, resetTime = R \<rparr>"
    and "\<forall>tq \<in> set reqs. counted cfg ip tq \<longrightarrow> fst tq < R"
    and "h + length (filter (counted cfg ip) reqs) \<le> 100"
  shows "snd (serve cfg store reqs) ip =
           Some \<lparr> hits = h + length (filter (counted cfg ip) reqs), resetTime = R \<rparr> \<and>
         (\<forall>(out, tq) \<in> set (zip (fst (serve cfg store reqs)) reqs).
            counted cfg ip tq \<longrightarrow> handled_by out \<noteq> None \<and> res_status (response out) \<noteq> 429)"
  using assms
proof (induction reqs arbitrary: store h)
  case Nil
  then show ?case by simp
next
  case (Cons tq reqs)
  obtain t q where tq: "tq = (t, q)" by (cases tq)
  let ?store' = "snd (handle cfg t store q)"
  let ?out = "fst (handle cfg t store q)"
  have later: "\<forall>tq \<in> set reqs. counted cfg ip tq \<longrightarrow> fst tq < R"
    using Cons.prems(2) by simp
  show ?case
  proof (cases "counted cfg ip tq")
    case True
    then have q: "reaches_limiter cfg q" "req_ip q = ip" using tq by (simp_all add: counted_def)
    have tR: "t < R" using Cons.prems(2) True tq by auto
    have h: "h < 100" using Cons.prems(3) True by simp
    have step: "handle cfg t store q =
        (with_headers (rate_headers apiLimiter t \<lparr> hits = Suc h, resetTime = R \<rparr>) (routes cfg t q),
         store(ip \<mapsto> \<lparr> hits = Suc h, resetTime = R \<rparr>))"
      using handle_admitted [of cfg q store "\<lparr> hits = h, resetTime = R \<rparr>" t] q Cons.prems(1) tR h
      by simp
    have st': "?store' ip = Some \<lparr> hits = Suc h, resetTime = R \<rparr>" by (simp add: step)
    have len: "Suc h + length (filter (counted cfg ip) reqs) \<le> 100"
      using Cons.prems(3) True by simp
    note IH = Cons.IH [of ?store' "Suc h", OF st' later len]
    have out_ok: "handled_by ?out \<noteq> None" "res_status (response ?out) \<noteq> 429"
      by (simp_all add: step routes_status routes_handled)
    have cnt: "h + length (filter (counted cfg ip) (tq # reqs)) =
               Suc h + length (filter (counted cfg ip) reqs)"
      using True by simp
    show ?thesis
    proof (intro conjI ballI)
      show "snd (serve cfg store (tq # reqs)) ip =
              Some \<lparr> hits = h + length (filter (counted cfg ip) (tq # reqs)), resetTime = R \<rparr>"
      proof -
        have "snd (serve cfg store (tq # reqs)) = snd (serve cfg ?store' reqs)"
          by (simp only: tq serve_Cons snd_conv)
        then show ?thesis using IH cnt by simp
      qed
    next
      fix x assume "x \<in> set (zip (fst (serve cfg store (tq # reqs))) (tq # reqs))"
      then have "x = (?out, tq) \<or> x \<in> set (zip (fst (serve cfg ?store' reqs)) reqs)"
        unfolding tq serve_Cons fst_conv by simp
      then show "case x of (out, tq) \<Rightarrow>
          counted cfg ip tq \<longrightarrow> handled_by out \<noteq> None \<and> res_status (response out) \<noteq> 429"
        using out_ok IH by auto
    qed
  next
    case False
    then have "\<not> (reaches_limiter cfg q \<and> req_ip q = ip)" using tq by (simp add: counted_def)
    then have "?store' ip = store ip" by (rule handle_frame)
    then have st': "?store' ip = Some \<lparr> hits = h, resetTime = R \<rparr>" using Cons.prems(1) by simp
    have len: "h + length (filter (counted cfg ip) reqs) \<le> 100"
      using Cons.prems(3) False by simp
    note IH = Cons.IH [of ?store' h, OF st' later len]
    have cnt: "h + length (filter (counted cfg ip) (tq # reqs)) =
               h + length (filter (counted cfg ip) reqs)"
      using False by simp
    show ?thesis
    proof (intro conjI ballI)
      show "snd (serve cfg store (tq # reqs)) ip =
              Some \<lparr> hits = h + length (filter (counted cfg ip) (tq # reqs)), resetTime = R \<rparr>"
      proof -
        have "snd (serve cfg store (tq # reqs)) = snd (serve cfg ?store' reqs)"
          by (simp only: tq serve_Cons snd_conv)
        then show ?thesis using IH cnt by simp
      qed
    next
      fix x assume "x \<in> set (zip (fst (serve cfg store (tq # reqs))) (tq # reqs))"
      then have "x = (?out, tq) \<or> x \<in> set (zip (fst (serve cfg ?store' reqs)) reqs)"
        unfolding tq serve_Cons fst_conv by simp
      then show "case x of (out, tq) \<Rightarrow>
          counted cfg ip tq \<longrightarrow> handled_by out \<noteq> None \<and> res_status (response out) \<noteq> 429"
        using False IH by auto
    qed
  qed
qed

text \<open>
  C5. The limiter is configured with a window of 10 minutes and a cap of 100,
  standard headers on and legacy headers off. It runs only for paths under
  \<open>/api\<close>: any other request leaves the counters alone and carries no
  rate-limit header. A request that reaches it carries the three
  \<open>RateLimit-*\<close> headers and no \<open>X-RateLimit-*\<close> header. The counters
  are per client address: a request changes no bucket but that of its own
  address, and only when it reaches the limiter. Take any trace of requests,
  from any clients and to any paths, in which the first request, at \<open>t0\<close>,
  opens the window of one address and 99 more requests from that address
  reach the limiter before \<open>t0\<close> plus ten minutes. All 100 go on to the
  routes; a further request from that address before \<open>t0\<close> plus ten
  minutes is answered with 429 and no callback of the server file runs; a
  request from it at or after that instant is answered by the routes again;
  and a request from an address that the trace has not counted is answered
  by the routes at any time.
\<close>

theorem rate_limit_api:
  assumes "store ip = None \<or> (\<exists>b. store ip = Some b \<and> resetTime b \<le> t0)"
    and "counted cfg ip (t0, r0)"
    and "length (filter (counted cfg ip) rest) = 99"
    and "\<forall>tq \<in> set rest. counted cfg ip tq \<longrightarrow> fst tq < t0 + windowMs apiLimiter"
    and "reaches_limiter cfg r" and "req_ip r = ip"
  shows
    "windowMs apiLimiter = 10 * 60 * 1000 \<and> max_opt apiLimiter = 100 \<and>
     standardHeaders apiLimiter \<and> \<not> legacyHeaders apiLimiter \<and>
     (\<forall>q now st. \<not> mount_match ''/api'' (req_path q) \<longrightarrow>
        snd (handle cfg now st q) = st \<and>
        res_headers (response (fst (handle cfg now st q))) = []) \<and>
     (\<forall>now st. map fst (res_headers (response (fst (handle cfg now st r)))) =
        [''RateLimit-Limit'', ''RateLimit-Remaining'', ''RateLimit-Reset'']) \<and>
     (\<forall>q now st k. \<not> (reaches_limiter cfg q \<and> req_ip q = k) \<longrightarrow>
        snd (handle cfg now st q) k = st k) \<and>
     (\<forall>(out, tq) \<in> set (zip (fst (serve cfg store ((t0, r0) # rest))) ((t0, r0) # rest)).
        counted cfg ip tq \<longrightarrow> handled_by out \<noteq> None \<and> res_status (response out) \<noteq> 429) \<and>
     (\<forall>t. t < t0 + windowMs apiLimiter \<longrightarrow>
        res_status (response (fst (handle cfg t (snd (serve cfg store ((t0, r0) # rest))) r))) = 429 \<and>
        handled_by (fst (handle cfg t (snd (serve cfg store ((t0, r0) # rest))) r)) = None) \<and>
     (\<forall>t. t0 + windowMs apiLimiter \<le> t \<longrightarrow>
        res_status (response (fst (handle cfg t (snd (serve cfg store ((t0, r0) # rest))) r))) =
          res_status (response (routes cfg t r)) \<and>
        res_body (response (fst (handle cfg t (snd (serve cfg store ((t0, r0) # rest))) r))) =
          res_body (response (routes cfg t r)) \<and>
        handled_by (fst (handle cfg t (snd (serve cfg store ((t0, r0) # rest))) r)) =
          handled_by (routes cfg t r) \<and>
        res_status (response (fst (handle cfg t (snd (serve cfg store ((t0, r0) # rest))) r))) \<noteq> 429) \<and>
     (\<forall>r' t. reaches_limiter cfg r' \<and> store (req_ip r') = None \<and>
        (\<forall>tq \<in> set ((t0, r0) # rest). \<not> counted cfg (req_ip r') tq) \<longrightarrow>
        res_status (response (fst (handle cfg t (snd (serve cfg store ((t0, r0) # rest))) r'))) =
          res_status (response (routes cfg t r')) \<and>
        handled_by (fst (handle cfg t (snd (serve cfg store ((t0, r0) # rest))) r')) =
          handled_by (routes cfg t r') \<and>
        res_status (response (fst (handle cfg t (snd (serve cfg store ((t0, r0) # rest))) r'))) \<noteq> 429)"
proof -
  let ?W = "600000 :: nat"
  let ?b1 = "\<lparr> hits = 1, resetTime = t0 + ?W \<rparr>"
  let ?store1 = "snd (handle cfg t0 store r0)"
  let ?first = "fst (handle cfg t0 store r0)"
  let ?trace = "(t0, r0) # rest"
  let ?final = "snd (serve cfg store ?trace)"
  have r0: "reaches_limiter cfg r0" "req_ip r0 = ip"
    using assms(2) by (simp_all add: counted_def)
  have step0: "handle cfg t0 store r0 =
      (with_headers (rate_headers apiLimiter t0 ?b1) (routes cfg t0 r0), store(ip \<mapsto> ?b1))"
    using handle_new_window [of cfg r0 store t0] r0 assms(1) by simp
  have st1: "?store1 ip = Some \<lparr> hits = 1, resetTime = t0 + ?W \<rparr>" by (simp add: step0)
  have later: "\<forall>tq \<in> set rest. counted cfg ip tq \<longrightarrow> fst tq < t0 + ?W"
    using assms(4) by simp
  have len: "1 + length (filter (counted cfg ip) rest) \<le> 100" using assms(3) by simp
  note W = serve_counted [of ?store1 ip 1 "t0 + ?W" rest cfg, OF st1 later len]
  have final_eq: "?final = snd (serve cfg ?store1 rest)"
    by (simp only: serve_Cons snd_conv)
  have final: "?final ip = Some \<lparr> hits = 100, resetTime = t0 + ?W \<rparr>"
  proof -
    from W assms(3) have "snd (serve cfg ?store1 rest) ip =
        Some \<lparr> hits = 100, resetTime = t0 + ?W \<rparr>" by simp
    then show ?thesis by (simp only: final_eq)
  qed
  have first_ok: "handled_by ?first \<noteq> None" "res_status (response ?first) \<noteq> 429"
    by (simp_all add: step0 routes_status routes_handled)
  have outs: "\<forall>(out, tq) \<in> set (zip (fst (serve cfg store ?trace)) ?trace).
        counted cfg ip tq \<longrightarrow> handled_by out \<noteq> None \<and> res_status (response out) \<noteq> 429"
  proof
    fix x assume "x \<in> set (zip (fst (serve cfg store ?trace)) ?trace)"
    then have "x = (?first, (t0, r0)) \<or> x \<in> set (zip (fst (serve cfg ?store1 rest)) rest)"
      unfolding serve_Cons fst_conv by simp
    then show "case x of (out, tq) \<Rightarrow>
        counted cfg ip tq \<longrightarrow> handled_by out \<noteq> None \<and> res_status (response out) \<noteq> 429"
      using first_ok W by auto
  qed
  have inside: "res_status (response (fst (handle cfg t ?final r))) = 429 \<and>
        handled_by (fst (handle cfg t ?final r)) = None" if "t < t0 + ?W" for t
    using handle_refused [of cfg r ?final "\<lparr> hits = 100, resetTime = t0 + ?W \<rparr>" t]
      assms(5,6) final that
    by (simp add: too_many_def)
  have after: "fst (handle cfg t ?final r) =
        with_headers (rate_headers apiLimiter t \<lparr> hits = 1, resetTime = t + ?W \<rparr>) (routes cfg t r)"
    if "t0 + ?W \<le> t" for t
    using handle_new_window [of cfg r ?final t] assms(5,6) final that by simp
  have other: "fst (handle cfg t ?final r') =
        with_headers (rate_headers apiLimiter t \<lparr> hits = 1, resetTime = t + ?W \<rparr>) (routes cfg t r')"
    if "reaches_limiter cfg r' \<and> store (req_ip r') = None \<and>
        (\<forall>tq \<in> set ?trace. \<not> counted cfg (req_ip r') tq)" for r' t
  proof -
    from that have "?final (req_ip r') = store (req_ip r')"
      by (intro serve_frame) simp
    with that have "?final (req_ip r') = None" by simp
    then show ?thesis
      using handle_new_window [of cfg r' ?final t] that by simp
  qed
  have outside: "snd (handle cfg now st q) = st \<and>
        res_headers (response (fst (handle cfg now st q))) = []"
    if "\<not> mount_match ''/api'' (req_path q)" for q now st
    using that
    by (auto simp: handle_def routes_no_headers error_handler_def send_def cors_def cors_accept_def
        preflight_def split: option.splits stage_result.splits sum.splits if_splits)
  have names: "map fst (res_headers (response (fst (handle cfg now st r)))) =
        [''RateLimit-Limit'', ''RateLimit-Remaining'', ''RateLimit-Reset'']" for now st
    using assms(5)
    by (auto simp: handle_limited rateLimit_def Let_def rate_header_names routes_no_headers
        too_many_def split: prod.splits)
  have frame: "snd (handle cfg now st q) k = st k"
    if "\<not> (reaches_limiter cfg q \<and> req_ip q = k)" for q now st k
    using that by (rule handle_frame)
  have static: "windowMs apiLimiter = 10 * 60 * 1000 \<and> max_opt apiLimiter = 100 \<and>
     standardHeaders apiLimiter \<and> \<not> legacyHeaders apiLimiter" by simp
  have after': "res_status (response (fst (handle cfg t ?final r))) =
          res_status (response (routes cfg t r)) \<and>
        res_body (response (fst (handle cfg t ?final r))) = res_body (response (routes cfg t r)) \<and>
        handled_by (fst (handle cfg t ?final r)) = handled_by (routes cfg t r) \<and>
        res_status (response (fst (handle cfg t ?final r))) \<noteq> 429"
    if "t0 + windowMs apiLimiter \<le> t" for t
    using after [of t] that by (simp add: routes_status)
  have other': "res_status (response (fst (handle cfg t ?final r'))) =
          res_status (response (routes cfg t r')) \<and>
        handled_by (fst (handle cfg t ?final r')) = handled_by (routes cfg t r') \<and>
        res_status (response (fst (handle cfg t ?final r'))) \<noteq> 429"
    if "reaches_limiter cfg r' \<and> store (req_ip r') = None \<and>
        (\<forall>tq \<in> set ?trace. \<not> counted cfg (req_ip r') tq)" for r' t
    using other [OF that, of t] by (simp add: routes_status)
  have inside': "\<forall>t. t < t0 + windowMs apiLimiter \<longrightarrow>
        res_status (response (fst (handle cfg t ?final r))) = 429 \<and>
        handled_by (fst (handle cfg t ?final r)) = None"
    using inside by simp
  show ?thesis
    by (intro conjI allI impI)
       (use static outside names frame outs inside' after' other' in \<open>blast+\<close>)
qed


theorem rate_limit_api_witness:
  "res_status (response (fst (handle
      \<lparr> env = ''development'', port = Finite 3000, corsOrigins = [], trustProxy = False, baseUrl = None \<rparr>
      599999
      (snd (serve
        \<lparr> env = ''development'', port = Finite 3000, corsOrigins = [], trustProxy = False, baseUrl = None \<rparr>
        Map.empty
        ((0, \<lparr> req_method = ''GET'', req_path = ''/api/hello'', req_headers = Map.empty,
               req_ip = ''203.0.113.7'', req_body_fault = None \<rparr>) #
         (5, \<lparr> req_method = ''GET'', req_path = ''/api/hello'', req_headers = Map.empty,
               req_ip = ''198.51.100.9'', req_body_fault = None \<rparr>) #
         (7, \<lparr> req_method = ''GET'', req_path = ''/livez'', req_headers = Map.empty,
               req_ip = ''203.0.113.7'', req_body_fault = None \<rparr>) #
         replicate 99
           (10, \<lparr> req_method = ''GET'', req_path = ''/api/hello'', req_headers = Map.empty,
                  req_ip = ''203.0.113.7'', req_body_fault = None \<rparr>))))
      \<lparr> req_method = ''GET'', req_path = ''/api/hello'', req_headers = Map.empty,
        req_ip = ''203.0.113.7'', req_body_fault = None \<rparr>))) = 429 \<and>
   res_status (response (fst (handle
      \<lparr> env = ''development'', port = Finite 3000, corsOrigins = [], trustProxy = False, baseUrl = None \<rparr>
      600000
      (snd (serve
        \<lparr> env = ''development'', port = Finite 3000, corsOrigins = [], trustProxy = False, baseUrl = None \<rparr>
        Map.empty
        ((0, \<lparr> req_method = ''GET'', req_path = ''/api/hello'', req_headers = Map.empty,
               req_ip = ''203.0.113.7'', req_body_fault = None \<rparr>) #
         (5, \<lparr> req_method = ''GET'', req_path = ''/api/hello'', req_headers = Map.empty,
               req_ip = ''198.51.100.9'', req_body_fault = None \<rparr>) #
         (7, \<lparr> req_method = ''GET'', req_path = ''/livez'', req_headers = Map.empty,
               req_ip = ''203.0.113.7'', req_body_fault = None \<rparr>) #
         replicate 99
           (10, \<lparr> req_method = ''GET'', req_path = ''/api/hello'', req_headers = Map.empty,
                  req_ip = ''203.0.113.7'', req_body_fault = None \<rparr>))))
      \<lparr> req_method = ''GET'', req_path = ''/api/hello'', req_headers = Map.empty,
        req_ip = ''203.0.113.7'', req_body_fault = None \<rparr>))) = 200 \<and>
   res_status (response (fst (handle
      \<lparr> env = ''development'', port = Finite 3000, corsOrigins = [], trustProxy = False, baseUrl = None \<rparr>
      599999
      (snd (serve
        \<lparr> env = ''development'', port = Finite 3000, corsOrigins = [], trustProxy = False, baseUrl = None \<rparr>
        Map.empty
        ((0, \<lparr> req_method = ''GET'', req_path = ''/api/hello'', req_headers = Map.empty,
               req_ip = ''203.0.113.7'', req_body_fault = None \<rparr>) #
         (5, \<lparr> req_method = ''GET'', req_path = ''/api/hello'', req_headers = Map.empty,
               req_ip = ''198.51.100.9'', req_body_fault = None \<rparr>) #
         (7, \<lparr> req_method = ''GET'', req_path = ''/livez'', req_headers = Map.empty,
               req_ip = ''203.0.113.7'', req_body_fault = None \<rparr>) #
         replicate 99
           (10, \<lparr> req_method = ''GET'', req_path = ''/api/hello'', req_headers = Map.empty,
                  req_ip = ''203.0.113.7'', req_body_fault = None \<rparr>))))
      \<lparr> req_method = ''GET'', req_path = ''/api/hello'', req_headers = Map.empty,
        req_ip = ''192.0.2.44'', req_body_fault = None \<rparr>))) = 200"
proof -
  let ?cfg = "\<lparr> env = ''development'', port = Finite 3000, corsOrigins = [], trustProxy = False,
                baseUrl = None \<rparr>"
  let ?req = "\<lparr> req_method = ''GET'', req_path = ''/api/hello'', req_headers = Map.empty,
                req_ip = ''203.0.113.7'', req_body_fault = None \<rparr>"
  let ?other = "\<lparr> req_method = ''GET'', req_path = ''/api/hello'', req_headers = Map.empty,
                  req_ip = ''198.51.100.9'', req_body_fault = None \<rparr>"
  let ?health = "\<lparr> req_method = ''GET'', req_path = ''/livez'', req_headers = Map.empty,
                   req_ip = ''203.0.113.7'', req_body_fault = None \<rparr>"
  let ?third = "\<lparr> req_method = ''GET'', req_path = ''/api/hello'', req_headers = Map.empty,
                  req_ip = ''192.0.2.44'', req_body_fault = None \<rparr>"
  let ?rest = "(5::nat, ?other) # (7, ?health) # replicate 99 (10, ?req)"
  let ?final = "snd (serve ?cfg Map.empty ((0, ?req) # ?rest))"
  have reach: "reaches_limiter ?cfg ?req"
    by (simp add: reaches_limiter_def cors_def corsOptions_def cors_accept_def mount_match_def
        lower_ascii_def)
  have reach3: "reaches_limiter ?cfg ?third"
    by (simp add: reaches_limiter_def cors_def corsOptions_def cors_accept_def mount_match_def
        lower_ascii_def)
  have c_req: "counted ?cfg ''203.0.113.7'' (t, ?req)" for t :: nat
    using reach by (simp add: counted_def)
  have c_other: "\<not> counted ?cfg ''203.0.113.7'' (5, ?other)"
    by (simp add: counted_def)
  have c_health: "\<not> counted ?cfg ''203.0.113.7'' (7, ?health)"
    by (simp add: counted_def reaches_limiter_def mount_match_def lower_ascii_def)
  have h1: "Map.empty ''203.0.113.7'' = None \<or>
            (\<exists>b. (Map.empty :: limiter_store) ''203.0.113.7'' = Some b \<and> resetTime b \<le> 0)"
    by simp
  have h3: "length (filter (counted ?cfg ''203.0.113.7'') ?rest) = 99"
    using c_req [of 10] c_other c_health by simp
  have h4: "\<forall>tq \<in> set ?rest. counted ?cfg ''203.0.113.7'' tq \<longrightarrow>
              fst tq < 0 + windowMs apiLimiter"
    by (simp add: apiLimiter_def)
  have h6: "req_ip ?req = ''203.0.113.7''" by simp
  note T = rate_limit_api [OF h1 c_req [of 0] h3 h4 reach h6]
  from T have inside: "\<forall>t. t < 0 + windowMs apiLimiter \<longrightarrow>
        res_status (response (fst (handle ?cfg t ?final ?req))) = 429 \<and>
        handled_by (fst (handle ?cfg t ?final ?req)) = None"
    by blast
  from T have after: "\<forall>t. 0 + windowMs apiLimiter \<le> t \<longrightarrow>
        res_status (response (fst (handle ?cfg t ?final ?req))) =
          res_status (response (routes ?cfg t ?req))"
    by blast
  from T have other: "\<forall>r' t. reaches_limiter ?cfg r' \<and>
        (Map.empty :: limiter_store) (req_ip r') = None \<and>
        (\<forall>tq \<in> set ((0, ?req) # ?rest). \<not> counted ?cfg (req_ip r') tq) \<longrightarrow>
        res_status (response (fst (handle ?cfg t ?final r'))) =
          res_status (response (routes ?cfg t r'))"
    by blast
  have "(599999::nat) < 0 + windowMs apiLimiter" by (simp add: apiLimiter_def)
  with inside have a: "res_status (response (fst (handle ?cfg 599999 ?final ?req))) = 429"
    by blast
  have "0 + windowMs apiLimiter \<le> (600000::nat)" by (simp add: apiLimiter_def)
  with after have "res_status (response (fst (handle ?cfg 600000 ?final ?req))) =
          res_status (response (routes ?cfg 600000 ?req))"
    by blast
  moreover have ok: "res_status (response (routes ?cfg t q)) = 200"
    if "req_method q = ''GET''" "req_path q = ''/api/hello''" for t q
    using that by (simp add: routes_def get_route_def path_match_def lower_ascii_def send_def)
  ultimately have b: "res_status (response (fst (handle ?cfg 600000 ?final ?req))) = 200"
    by simp
  have "reaches_limiter ?cfg ?third \<and> (Map.empty :: limiter_store) (req_ip ?third) = None \<and>
        (\<forall>tq \<in> set ((0, ?req) # ?rest). \<not> counted ?cfg (req_ip ?third) tq)"
    using reach3 by (simp add: counted_def)
  with other have "res_status (response (fst (handle ?cfg 599999 ?final ?third))) =
          res_status (response (routes ?cfg 599999 ?third))"
    by blast
  then have c: "res_status (response (fst (handle ?cfg 599999 ?final ?third))) = 200"
    using ok [of ?third 599999] by simp
  from a b c show ?thesis by simp
qed

section \<open>Graceful shutdown\<close>

lemma run_simps [simp]:
  "run p [] = p" "run p (ev # evs) = run (step p ev) evs"
  "run p (evs @ [ev]) = step (run p evs) ev"
  by (simp_all add: run_def)















end
